theory Spec2Isabelle
  imports Main
begin

section \<open>Shared vocabulary\<close>

text \<open>
  A JavaScript promise is settled at most once: \<open>resolve\<close> and \<open>reject\<close> act on a
  pending promise only and are silently ignored afterwards.
\<close>

datatype ('a, 'e) promise = Pending | Fulfilled 'a | Rejected 'e

fun resolve :: "'a \<Rightarrow> ('a, 'e) promise \<Rightarrow> ('a, 'e) promise" where
  "resolve v Pending = Fulfilled v"
| "resolve v p = p"

fun reject :: "'e \<Rightarrow> ('a, 'e) promise \<Rightarrow> ('a, 'e) promise" where
  "reject e Pending = Rejected e"
| "reject e p = p"

text \<open>
  The result of calling into code that may throw: the external widget library, or one of
  the component's own operations as seen by its caller.
\<close>

datatype ('a, 'x) outcome = Returns 'a | Throws 'x

text \<open>
  Values of type \<open>string | undefined | null\<close> (widget ids, tokens) are \<open>string option\<close>,
  \<open>None\<close> standing for \<open>undefined\<close> and \<open>null\<close> alike. JavaScript treats the empty
  string as false in a condition, as it does \<open>undefined\<close> and \<open>null\<close>.
\<close>

fun truthy :: "string option \<Rightarrow> bool" where
  "truthy None = False"
| "truthy (Some s) = (s \<noteq> [])"


text \<open>
  What an external call or a failed property access throws. \<open>External\<close> is an error
  raised inside the widget library; \<open>TypeError\<close> is what JavaScript raises when a method
  is called on \<open>undefined\<close>, and when strict code assigns to or deletes a property that
  its object does not let go.
\<close>

datatype exn = External string | TypeError


section \<open>The global loader state (lib.tsx, lines 22--44)\<close>

datatype turnstile_status = Unloaded | Loading | Ready

text \<open>
  The module keeps one promise object for its whole lifetime; \<open>ensureTurnstile\<close> hands
  out a reference to it. \<open>OtherPromise\<close> stands for every other promise of the page.
\<close>

datatype awaitable = TurnstileLoadPromise | OtherPromise nat

text \<open>
  The global object decides what \<open>window[name] = f\<close> and \<open>delete window[name]\<close> do.
  An ordinary name stores the function. A name whose property cannot be written
  (\<open>document\<close>, \<open>undefined\<close>) makes the assignment throw a \<open>TypeError\<close>, the module
  being strict code. A name with a setter of its own (\<open>name\<close>, \<open>onclick\<close>) accepts the
  function without an exception, but reading the property back does not give a
  function the external script could call under that name. A property that cannot be
  deleted (one declared by a \<open>var\<close> of a classic script) makes \<open>delete\<close> throw.
\<close>

datatype assignment = Stored | Refused | NotKept

record global_object =
  window_assign :: "string \<Rightarrow> assignment"
  window_deletable :: "string \<Rightarrow> bool"

text \<open>
  \<open>turnstileState\<close> and \<open>turnstileLoadPromise\<close> are the module-level variables.
  \<open>window_slots\<close> is the part of the global object written by this module: slot \<open>n\<close>
  holds the onload closure created by \<open>ensureTurnstile\<close>, recorded by the callback name
  the closure captured. \<open>onload_closure\<close> is that closure itself, once it has been
  created and handed to the global object: whoever got hold of it may call it, also
  without going through the slot.
\<close>

record loader =
  turnstileState :: turnstile_status
  turnstileLoadPromise :: "(unit, unit) promise"
  window_slots :: "string \<rightharpoonup> string"
  onload_closure :: "string option"

text \<open>
  The executor passed to \<open>new Promise\<close> at line 29. It reads \<open>turnstileState\<close> and gives
  the state of the promise it leaves behind.
\<close>

definition turnstileLoadPromise_executor :: "turnstile_status \<Rightarrow> (unit, unit) promise" where
  "turnstileLoadPromise_executor st = (if st = Ready then resolve () Pending else Pending)"

text \<open>
  Module initialisation: line 22 sets \<open>turnstileState\<close> to \<open>'unloaded'\<close>, then line 29
  constructs the promise, the executor reading that value.
\<close>

definition module_init :: loader where
  "module_init =
     (let st = Unloaded
      in \<lparr>turnstileState = st,
          turnstileLoadPromise = turnstileLoadPromise_executor st,
          window_slots = Map.empty,
          onload_closure = None\<rparr>)"

text \<open>
  The closure installed under \<open>window[onLoadCallbackName]\<close> (lines 37--41): what its
  caller sees and the loader afterwards. A \<open>delete\<close> that throws does so after the
  promise has been resolved and the status set.
\<close>

definition onLoadCallback ::
  "global_object \<Rightarrow> string \<Rightarrow> loader \<Rightarrow> (unit, exn) outcome \<times> loader" where
  "onLoadCallback g onLoadCallbackName l =
     (let l1 = l\<lparr>turnstileLoadPromise := resolve () (turnstileLoadPromise l)\<rparr>;
          l2 = l1\<lparr>turnstileState := Ready\<rparr>
      in if window_deletable g onLoadCallbackName
         then (Returns (), l2\<lparr>window_slots := (window_slots l2)(onLoadCallbackName := None)\<rparr>)
         else (Throws TypeError, l2))"

text \<open>
  \<open>ensureTurnstile\<close> (lines 34--44): what the caller gets, the shared promise or the
  exception of the assignment at line 37, and the loader afterwards. Line 36 has run
  when line 37 throws.
\<close>

definition ensureTurnstile ::
  "global_object \<Rightarrow> string \<Rightarrow> loader \<Rightarrow> (awaitable, exn) outcome \<times> loader" where
  "ensureTurnstile g onLoadCallbackName l =
     (if turnstileState l = Unloaded
      then
        (let l1 = l\<lparr>turnstileState := Loading\<rparr>
         in case window_assign g onLoadCallbackName of
              Refused \<Rightarrow> (Throws TypeError, l1)
            | Stored \<Rightarrow>
                (Returns TurnstileLoadPromise,
                 l1\<lparr>window_slots := (window_slots l1)(onLoadCallbackName \<mapsto> onLoadCallbackName),
                    onload_closure := Some onLoadCallbackName\<rparr>)
            | NotKept \<Rightarrow>
                (Returns TurnstileLoadPromise, l1\<lparr>onload_closure := Some onLoadCallbackName\<rparr>))
      else (Returns TurnstileLoadPromise, l))"

text \<open>
  What can happen to the loader: a component calls \<open>ensureTurnstile\<close>; the external
  script calls the global function stored under a name; someone who holds the closure
  calls it directly. Calling an empty slot fails in the caller and leaves the module
  untouched.
\<close>

datatype loader_event = EnsureTurnstile string | InvokeGlobal string | InvokeClosure

fun loader_step :: "global_object \<Rightarrow> loader_event \<Rightarrow> loader \<Rightarrow> loader" where
  "loader_step g (EnsureTurnstile n) l = snd (ensureTurnstile g n l)"
| "loader_step g (InvokeGlobal n) l =
     (case window_slots l n of None \<Rightarrow> l | Some c \<Rightarrow> snd (onLoadCallback g c l))"
| "loader_step g InvokeClosure l =
     (case onload_closure l of None \<Rightarrow> l | Some c \<Rightarrow> snd (onLoadCallback g c l))"

fun loader_run :: "global_object \<Rightarrow> loader_event list \<Rightarrow> loader \<Rightarrow> loader" where
  "loader_run g [] l = l"
| "loader_run g (e # es) l = loader_run g es (loader_step g e l)"


text \<open>The moves of the status that the state machine allows in one step.\<close>

fun status_move :: "turnstile_status \<Rightarrow> turnstile_status \<Rightarrow> bool" where
  "status_move Unloaded Unloaded = True"
| "status_move Unloaded Loading = True"
| "status_move Loading Loading = True"
| "status_move Loading Ready = True"
| "status_move Ready Ready = True"
| "status_move a b = False"

text \<open>What holds of the loader throughout.\<close>

definition loader_inv :: "loader \<Rightarrow> bool" where
  "loader_inv l =
     ((turnstileState l = Unloaded \<longrightarrow> window_slots l = Map.empty \<and> onload_closure l = None)
      \<and> (turnstileState l = Ready \<longrightarrow> turnstileLoadPromise l = Fulfilled ())
      \<and> (turnstileState l \<noteq> Ready \<longrightarrow> turnstileLoadPromise l = Pending)
      \<and> (\<forall>n c. window_slots l n = Some c \<longrightarrow> c = n \<and> onload_closure l = Some n))"

text \<open>
  The fallback of lines 326--330: an effect of the component that marks the library
  as loaded when the script element is there and \<open>window.turnstile\<close> exists, without
  the loader promise. It gives the new value of the \<open>turnstileLoaded\<close> state.
\<close>

definition mark_loaded_if_present :: "bool \<Rightarrow> bool \<Rightarrow> bool \<Rightarrow> bool" where
  "mark_loaded_if_present scriptLoaded turnstileLoaded window_turnstile_present =
     (if scriptLoaded \<and> \<not> turnstileLoaded \<and> window_turnstile_present then True
      else turnstileLoaded)"

text \<open>Sample global objects.\<close>

definition page_global :: global_object where
  "page_global =
     \<lparr>window_assign = (\<lambda>n. if n = ''document'' then Refused
                            else if n = ''name'' then NotKept else Stored),
      window_deletable = (\<lambda>n. n \<noteq> ''declaredByVar'')\<rparr>"


section \<open>The widget instance (lib.tsx, lines 46--358)\<close>

text \<open>
  The global object \<open>window.turnstile\<close> (spec section 6). Each method is optional, as
  the source's \<open>turnstile?.reset\<close> tests allow, and is given by what a call returns or
  throws. \<open>'node\<close> is a DOM node, \<open>'cfg\<close> the render configuration object.
\<close>

record ('node, 'cfg) turnstile_api =
  api_render :: "('node \<Rightarrow> 'cfg \<Rightarrow> (string option, exn) outcome) option"
  api_remove :: "(string \<Rightarrow> (unit, exn) outcome) option"
  api_reset :: "(string \<Rightarrow> (unit, exn) outcome) option"
  api_execute :: "('node \<Rightarrow> 'cfg \<Rightarrow> (unit, exn) outcome) option"
  api_getResponse :: "(string \<Rightarrow> (string option, exn) outcome) option"
  api_isExpired :: "(string \<Rightarrow> (bool, exn) outcome) option"

text \<open>\<open>obj?.method\<close>: the method of an object that may be \<open>undefined\<close>.\<close>

fun optional_method :: "'o option \<Rightarrow> ('o \<Rightarrow> 'f option) \<Rightarrow> 'f option" where
  "optional_method None sel = None"
| "optional_method (Some obj) sel = sel obj"

text \<open>
  What an operation does that can be seen from outside: console warnings (with the error
  object logged, if any), calls into the widget library, calls of the \<open>onWidgetLoad\<close> hook.
\<close>

datatype ('node, 'cfg) effect =
    Warn string "exn option"
  | ExtRender 'node 'cfg
  | ExtRemove string
  | ExtReset string
  | ExtExecute 'node 'cfg
  | ExtGetResponse string
  | ExtIsExpired string
  | OnWidgetLoad string

text \<open>
  The mutable state of one mounted component: the \<open>useState\<close> cells \<open>containerStyle\<close>
  and \<open>turnstileLoaded\<close>, the refs \<open>containerRef\<close>, \<open>widgetId\<close> and \<open>widgetSolved\<close>
  (their \<open>.current\<close>), and the effects performed so far, oldest first.
\<close>

record ('node, 'cfg, 'style) widget_instance =
  containerStyle :: 'style
  containerRef :: "'node option"
  turnstileLoaded :: bool
  widgetId :: "string option"
  widgetSolved :: bool
  effects :: "('node, 'cfg) effect list"

text \<open>
  What the closures of one render close over. \<open>CONTAINER_STYLE_SET\<close> is the style table
  imported from \<open>./utils\<close>, indexed by key as in the source; \<open>widgetSize\<close> is
  \<open>options.size || 'normal'\<close>; \<open>onWidgetLoad_given\<close> says whether the optional hook was
  passed; \<open>turnstile\<close> is the \<open>const { turnstile } = window\<close> read when the imperative
  handle was built (line 183).
\<close>

record ('node, 'cfg, 'style) closure =
  CONTAINER_STYLE_SET :: "string \<Rightarrow> 'style"
  options_execution :: "string option"
  widgetSize :: string
  renderConfig :: 'cfg
  onWidgetLoad_given :: bool
  turnstile :: "('node, 'cfg) turnstile_api option"

text \<open>
  \<open>checkIfTurnstileLoaded\<close> (line 130), given \<open>window.turnstile\<close> as it is at the time of the
  call. The handle and the effects run in the browser only, where \<open>window\<close> is defined.
\<close>

definition checkIfTurnstileLoaded :: "('node, 'cfg) turnstile_api option \<Rightarrow> bool" where
  "checkIfTurnstileLoaded window_turnstile = (window_turnstile \<noteq> None)"

definition log_effect ::
  "('node, 'cfg) effect \<Rightarrow> ('node, 'cfg, 'style) widget_instance \<Rightarrow> ('node, 'cfg, 'style) widget_instance" where
  "log_effect e s = s\<lparr>effects := effects s @ [e]\<rparr>"

definition not_loaded :: string where
  "not_loaded = ''Turnstile has not been loaded''"

definition not_loaded_or_no_container :: string where
  "not_loaded_or_no_container = ''Turnstile has not been loaded or container not found''"

definition not_execute_mode :: string where
  "not_execute_mode = ''Execution mode is not set to '' @ [CHR 0x22] @ ''execute'' @ [CHR 0x22]"

text \<open>
  Line 245 interpolates the ref object \<open>widgetId\<close> itself, not its \<open>.current\<close>.
\<close>

definition failed_to_reset :: string where
  "failed_to_reset = ''Failed to reset Turnstile widget [object Object]''"

text \<open>\<open>if (widgetId.current) onWidgetLoad?.(widgetId.current)\<close> (lines 167 and 274).\<close>

definition notify_widget_load ::
  "('node, 'cfg, 'style) closure \<Rightarrow> ('node, 'cfg, 'style) widget_instance \<Rightarrow> ('node, 'cfg, 'style) widget_instance" where
  "notify_widget_load cl s =
     (case widgetId s of
        None \<Rightarrow> s
      | Some wid \<Rightarrow> if wid \<noteq> [] \<and> onWidgetLoad_given cl then log_effect (OnWidgetLoad wid) s else s)"

subsection \<open>The imperative handle (lines 180--323)\<close>

text \<open>
  Every operation takes the closure, \<open>window.turnstile\<close> at the time of the call, and the
  instance; it gives what the caller sees (a value, or the exception that reaches the
  caller) and the instance afterwards.
\<close>

definition getResponse ::
  "('node, 'cfg, 'style) closure \<Rightarrow> ('node, 'cfg) turnstile_api option \<Rightarrow> ('node, 'cfg, 'style) widget_instance
   \<Rightarrow> (string option, exn) outcome \<times> ('node, 'cfg, 'style) widget_instance" where
  "getResponse cl window_turnstile s =
     (case optional_method (turnstile cl) api_getResponse of
        None \<Rightarrow> (Returns None, log_effect (Warn not_loaded None) s)
      | Some ext_getResponse \<Rightarrow>
          (case widgetId s of
             None \<Rightarrow> (Returns None, log_effect (Warn not_loaded None) s)
           | Some wid \<Rightarrow>
               if wid = [] \<or> \<not> checkIfTurnstileLoaded window_turnstile
               then (Returns None, log_effect (Warn not_loaded None) s)
               else (ext_getResponse wid, log_effect (ExtGetResponse wid) s)))"

definition reset ::
  "('node, 'cfg, 'style) closure \<Rightarrow> ('node, 'cfg) turnstile_api option \<Rightarrow> ('node, 'cfg, 'style) widget_instance
   \<Rightarrow> (unit, exn) outcome \<times> ('node, 'cfg, 'style) widget_instance" where
  "reset cl window_turnstile s =
     (case optional_method (turnstile cl) api_reset of
        None \<Rightarrow> (Returns (), log_effect (Warn not_loaded None) s)
      | Some ext_reset \<Rightarrow>
          (case widgetId s of
             None \<Rightarrow> (Returns (), log_effect (Warn not_loaded None) s)
           | Some wid \<Rightarrow>
               if wid = [] \<or> \<not> checkIfTurnstileLoaded window_turnstile
               then (Returns (), log_effect (Warn not_loaded None) s)
               else
                 (let s1 = (if options_execution cl = Some ''execute''
                            then s\<lparr>containerStyle := CONTAINER_STYLE_SET cl ''invisible''\<rparr>
                            else s);
                      s2 = s1\<lparr>widgetSolved := False\<rparr>;
                      s3 = log_effect (ExtReset wid) s2
                  in case ext_reset wid of
                       Returns u \<Rightarrow> (Returns (), s3)
                     | Throws error \<Rightarrow>
                         (Returns (), log_effect (Warn failed_to_reset (Some error)) s3))))"

definition remove ::
  "('node, 'cfg, 'style) closure \<Rightarrow> ('node, 'cfg) turnstile_api option \<Rightarrow> ('node, 'cfg, 'style) widget_instance
   \<Rightarrow> (unit, exn) outcome \<times> ('node, 'cfg, 'style) widget_instance" where
  "remove cl window_turnstile s =
     (case optional_method (turnstile cl) api_remove of
        None \<Rightarrow> (Returns (), log_effect (Warn not_loaded None) s)
      | Some ext_remove \<Rightarrow>
          (case widgetId s of
             None \<Rightarrow> (Returns (), log_effect (Warn not_loaded None) s)
           | Some wid \<Rightarrow>
               if wid = [] \<or> \<not> checkIfTurnstileLoaded window_turnstile
               then (Returns (), log_effect (Warn not_loaded None) s)
               else
                 (let s1 = s\<lparr>containerStyle := CONTAINER_STYLE_SET cl ''invisible''\<rparr>;
                      s2 = s1\<lparr>widgetSolved := False\<rparr>;
                      s3 = log_effect (ExtRemove wid) s2
                  in case ext_remove wid of
                       Returns u \<Rightarrow> (Returns (), s3\<lparr>widgetId := None\<rparr>)
                     | Throws error \<Rightarrow> (Throws error, s3))))"

definition render ::
  "('node, 'cfg, 'style) closure \<Rightarrow> ('node, 'cfg) turnstile_api option \<Rightarrow> ('node, 'cfg, 'style) widget_instance
   \<Rightarrow> (string option, exn) outcome \<times> ('node, 'cfg, 'style) widget_instance" where
  "render cl window_turnstile s =
     (case optional_method (turnstile cl) api_render of
        None \<Rightarrow> (Returns None, log_effect (Warn not_loaded_or_no_container None) s)
      | Some ext_render \<Rightarrow>
          (case containerRef s of
             None \<Rightarrow> (Returns None, log_effect (Warn not_loaded_or_no_container None) s)
           | Some node \<Rightarrow>
               if \<not> checkIfTurnstileLoaded window_turnstile \<or> truthy (widgetId s)
               then (Returns None, log_effect (Warn not_loaded_or_no_container None) s)
               else
                 (let s1 = log_effect (ExtRender node (renderConfig cl)) s
                  in case ext_render node (renderConfig cl) of
                       Throws error \<Rightarrow> (Throws error, s1)
                     | Returns new_id \<Rightarrow>
                         (let s2 = s1\<lparr>widgetId := new_id\<rparr>;
                              s3 = notify_widget_load cl s2;
                              s4 = (if options_execution cl \<noteq> Some ''execute''
                                    then s3\<lparr>containerStyle := CONTAINER_STYLE_SET cl (widgetSize cl)\<rparr>
                                    else s3)
                          in (Returns new_id, s4)))))"

definition execute ::
  "('node, 'cfg, 'style) closure \<Rightarrow> ('node, 'cfg) turnstile_api option \<Rightarrow> ('node, 'cfg, 'style) widget_instance
   \<Rightarrow> (unit, exn) outcome \<times> ('node, 'cfg, 'style) widget_instance" where
  "execute cl window_turnstile s =
     (if options_execution cl \<noteq> Some ''execute''
      then (Returns (), log_effect (Warn not_execute_mode None) s)
      else
        (case optional_method (turnstile cl) api_execute of
           None \<Rightarrow> (Returns (), log_effect (Warn not_loaded_or_no_container None) s)
         | Some ext_execute \<Rightarrow>
             (case containerRef s of
                None \<Rightarrow> (Returns (), log_effect (Warn not_loaded_or_no_container None) s)
              | Some node \<Rightarrow>
                  if \<not> truthy (widgetId s) \<or> \<not> checkIfTurnstileLoaded window_turnstile
                  then (Returns (), log_effect (Warn not_loaded_or_no_container None) s)
                  else
                    (let s1 = log_effect (ExtExecute node (renderConfig cl)) s
                     in case ext_execute node (renderConfig cl) of
                          Throws error \<Rightarrow> (Throws error, s1)
                        | Returns u \<Rightarrow>
                            (Returns (),
                             s1\<lparr>containerStyle := CONTAINER_STYLE_SET cl (widgetSize cl)\<rparr>)))))"

definition isExpired ::
  "('node, 'cfg, 'style) closure \<Rightarrow> ('node, 'cfg) turnstile_api option \<Rightarrow> ('node, 'cfg, 'style) widget_instance
   \<Rightarrow> (bool option, exn) outcome \<times> ('node, 'cfg, 'style) widget_instance" where
  "isExpired cl window_turnstile s =
     (case optional_method (turnstile cl) api_isExpired of
        None \<Rightarrow> (Returns None, log_effect (Warn not_loaded None) s)
      | Some ext_isExpired \<Rightarrow>
          (case widgetId s of
             None \<Rightarrow> (Returns None, log_effect (Warn not_loaded None) s)
           | Some wid \<Rightarrow>
               if wid = [] \<or> \<not> checkIfTurnstileLoaded window_turnstile
               then (Returns None, log_effect (Warn not_loaded None) s)
               else
                 (case ext_isExpired wid of
                    Returns b \<Rightarrow> (Returns (Some b), log_effect (ExtIsExpired wid) s)
                  | Throws error \<Rightarrow> (Throws error, log_effect (ExtIsExpired wid) s))))"

text \<open>The preconditions the operations test, by name.\<close>

definition reset_ready ::
  "('node, 'cfg, 'style) closure \<Rightarrow> ('node, 'cfg) turnstile_api option \<Rightarrow> ('node, 'cfg, 'style) widget_instance \<Rightarrow> bool" where
  "reset_ready cl window_turnstile s =
     (optional_method (turnstile cl) api_reset \<noteq> None \<and> truthy (widgetId s)
      \<and> checkIfTurnstileLoaded window_turnstile)"

definition remove_ready ::
  "('node, 'cfg, 'style) closure \<Rightarrow> ('node, 'cfg) turnstile_api option \<Rightarrow> ('node, 'cfg, 'style) widget_instance \<Rightarrow> bool" where
  "remove_ready cl window_turnstile s =
     (optional_method (turnstile cl) api_remove \<noteq> None \<and> truthy (widgetId s)
      \<and> checkIfTurnstileLoaded window_turnstile)"

definition render_ready ::
  "('node, 'cfg, 'style) closure \<Rightarrow> ('node, 'cfg) turnstile_api option \<Rightarrow> ('node, 'cfg, 'style) widget_instance \<Rightarrow> bool" where
  "render_ready cl window_turnstile s =
     (optional_method (turnstile cl) api_render \<noteq> None \<and> containerRef s \<noteq> None
      \<and> checkIfTurnstileLoaded window_turnstile \<and> \<not> truthy (widgetId s))"

definition execute_ready ::
  "('node, 'cfg, 'style) closure \<Rightarrow> ('node, 'cfg) turnstile_api option \<Rightarrow> ('node, 'cfg, 'style) widget_instance \<Rightarrow> bool" where
  "execute_ready cl window_turnstile s =
     (options_execution cl = Some ''execute''
      \<and> optional_method (turnstile cl) api_execute \<noteq> None \<and> containerRef s \<noteq> None
      \<and> truthy (widgetId s) \<and> checkIfTurnstileLoaded window_turnstile)"

subsection \<open>The automatic render effect (lines 157--178)\<close>

text \<open>
  The async closure \<open>render\<close> of the effect. \<open>cancelled\<close> is the effect's local variable
  as the closure finds it when its body runs. The body has no \<open>await\<close>: it runs to its
  end in one go. An exception inside it rejects the promise the async function returns
  and reaches no caller; it is the \<open>Throws\<close> outcome here.
\<close>

definition renderWidget_render ::
  "bool \<Rightarrow> ('node, 'cfg, 'style) closure \<Rightarrow> ('node, 'cfg) turnstile_api option \<Rightarrow> ('node, 'cfg, 'style) widget_instance
   \<Rightarrow> (unit, exn) outcome \<times> ('node, 'cfg, 'style) widget_instance" where
  "renderWidget_render cancelled cl window_turnstile s =
     (case containerRef s of
        None \<Rightarrow> (Returns (), s)
      | Some node \<Rightarrow>
          if cancelled then (Returns (), s)
          else
            (case optional_method window_turnstile api_render of
               None \<Rightarrow> (Throws TypeError, s)
             | Some ext_render \<Rightarrow>
                 (let s1 = log_effect (ExtRender node (renderConfig cl)) s
                  in case ext_render node (renderConfig cl) of
                       Throws error \<Rightarrow> (Throws error, s1)
                     | Returns new_id \<Rightarrow> (Returns (), notify_widget_load cl (s1\<lparr>widgetId := new_id\<rparr>)))))"


text \<open>
  The cleanup closure (lines 172--175): what its caller sees, the value of \<open>cancelled\<close>
  afterwards, and the instance afterwards.
\<close>

definition renderWidget_cleanup ::
  "('node, 'cfg) turnstile_api option \<Rightarrow> bool \<Rightarrow> ('node, 'cfg, 'style) widget_instance
   \<Rightarrow> (unit, exn) outcome \<times> bool \<times> ('node, 'cfg, 'style) widget_instance" where
  "renderWidget_cleanup window_turnstile cancelled s =
     (let cancelled' = True
      in case widgetId s of
           None \<Rightarrow> (Returns (), cancelled', s)
         | Some wid \<Rightarrow>
             if wid = [] then (Returns (), cancelled', s)
             else
               (case optional_method window_turnstile api_remove of
                  None \<Rightarrow> (Throws TypeError, cancelled', s)
                | Some ext_remove \<Rightarrow> (ext_remove wid, cancelled', log_effect (ExtRemove wid) s)))"


text \<open>The \<open>callback\<close> entry of \<open>renderConfig\<close> (lines 91--94), called by the widget on success.\<close>

definition success_callback :: "('node, 'cfg, 'style) widget_instance \<Rightarrow> ('node, 'cfg, 'style) widget_instance" where
  "success_callback s = s\<lparr>widgetSolved := True\<rparr>"


subsection \<open>The operations on an instance, as one family\<close>

text \<open>
  Everything in the component that writes to the instance: the six methods of the handle
  other than \<open>getResponsePromise\<close> (which only reads), the async \<open>render\<close> of the effect
  and its cleanup, and the success callback. \<open>cancelled\<close> is the effect's flag, used by
  \<open>EffectRender\<close> and \<open>EffectCleanup\<close> only.
\<close>

datatype operation =
    GetResponse | Reset | Remove | Render | Execute | IsExpired
  | EffectRender | EffectCleanup | SuccessCallback

fun perform ::
  "operation \<Rightarrow> ('node, 'cfg, 'style) closure \<Rightarrow> ('node, 'cfg) turnstile_api option \<Rightarrow> bool
   \<Rightarrow> ('node, 'cfg, 'style) widget_instance \<Rightarrow> ('node, 'cfg, 'style) widget_instance" where
  "perform GetResponse cl wt cancelled s = snd (getResponse cl wt s)"
| "perform Reset cl wt cancelled s = snd (reset cl wt s)"
| "perform Remove cl wt cancelled s = snd (remove cl wt s)"
| "perform Render cl wt cancelled s = snd (render cl wt s)"
| "perform Execute cl wt cancelled s = snd (execute cl wt s)"
| "perform IsExpired cl wt cancelled s = snd (isExpired cl wt s)"
| "perform EffectRender cl wt cancelled s = snd (renderWidget_render cancelled cl wt s)"
| "perform EffectCleanup cl wt cancelled s = snd (snd (renderWidget_cleanup wt cancelled s))"
| "perform SuccessCallback cl wt cancelled s = success_callback s"

subsection \<open>Sample inputs\<close>

text \<open>
  Concrete values on which the theorems are evaluated: DOM nodes are element ids, the
  render configuration is left empty, a style is named by its key in the style table.
\<close>

definition working_api :: "(string, unit) turnstile_api" where
  "working_api =
     \<lparr>api_render = Some (\<lambda>node cfg. Returns (Some ''widget-2'')),
      api_remove = Some (\<lambda>wid. Returns ()),
      api_reset = Some (\<lambda>wid. Returns ()),
      api_execute = Some (\<lambda>node cfg. Returns ()),
      api_getResponse = Some (\<lambda>wid. Returns (Some ''XYZ'')),
      api_isExpired = Some (\<lambda>wid. Returns False)\<rparr>"

definition throwing_api :: "(string, unit) turnstile_api" where
  "throwing_api =
     \<lparr>api_render = Some (\<lambda>node cfg. Throws (External ''render failed'')),
      api_remove = Some (\<lambda>wid. Throws (External ''remove failed'')),
      api_reset = Some (\<lambda>wid. Throws (External ''reset failed'')),
      api_execute = Some (\<lambda>node cfg. Throws (External ''execute failed'')),
      api_getResponse = Some (\<lambda>wid. Throws (External ''getResponse failed'')),
      api_isExpired = Some (\<lambda>wid. Throws (External ''isExpired failed''))\<rparr>"

text \<open>A library whose \<open>render\<close> gives no id back.\<close>

definition idless_api :: "(string, unit) turnstile_api" where
  "idless_api = working_api\<lparr>api_render := Some (\<lambda>node cfg. Returns None)\<rparr>"

definition sample_closure ::
  "(string, unit) turnstile_api \<Rightarrow> string option \<Rightarrow> (string, unit, string) closure" where
  "sample_closure api execution =
     \<lparr>CONTAINER_STYLE_SET = (\<lambda>key. key),
      options_execution = execution,
      widgetSize = ''compact'',
      renderConfig = (),
      onWidgetLoad_given = True,
      turnstile = Some api\<rparr>"

definition sample_instance :: "string option \<Rightarrow> (string, unit, string) widget_instance" where
  "sample_instance wid =
     \<lparr>containerStyle = ''normal'',
      containerRef = Some ''cf-turnstile'',
      turnstileLoaded = True,
      widgetId = wid,
      widgetSolved = True,
      effects = []\<rparr>"


section \<open>getResponsePromise (lib.tsx, lines 194--229)\<close>

text \<open>
  What \<open>checkLoaded\<close> reads each time it runs: \<open>widgetSolved.current\<close>,
  \<open>window.turnstile\<close> and \<open>widgetId.current\<close>. Other code (the success callback,
  \<open>reset()\<close>, \<open>remove()\<close>, the effects) changes them between two runs, so the run is
  given their value at every time, in milliseconds since the call.
\<close>

record ('node, 'cfg) snapshot =
  snap_widgetSolved :: bool
  snap_turnstile :: "('node, 'cfg) turnstile_api option"
  snap_widgetId :: "string option"

text \<open>
  Timers, as the browser's \<open>setTimeout\<close> has them (HTML Standard, timer initialisation
  steps). \<open>timeout\<close> and \<open>retry\<close> are whole numbers of milliseconds, not negative. The
  delay handed to \<open>setTimeout\<close> is read as a 32-bit signed integer, so that it wraps
  around from \<open>2^31\<close> on; a negative delay counts as \<open>0\<close>; and a timer set while a timer
  task of nesting level above \<open>5\<close> is running waits \<open>4\<close> ms at least. A timer set
  during a task of nesting level \<open>n\<close> makes a task of level \<open>n + 1\<close>; code that is not
  run by a timer has level \<open>0\<close>. The continuation of an \<open>await\<close> runs at the end of the
  task that resolved the awaited promise, so the timers it sets count as set by that
  task.

  \<open>setTimeout\<close> hands out positive handles in increasing order; a timer fires at the
  time it is due, the earliest first and, among timers due at the same time, the one
  created first. The two callbacks this code passes to \<open>setTimeout\<close> are the timeout
  closure (lines 217--220) and the \<open>resolve\<close> of the delay promise (line 223), whose
  continuation is the next \<open>checkLoaded()\<close>.
\<close>

definition to_int32 :: "nat \<Rightarrow> int" where
  "to_int32 d =
     (let m = int d mod 4294967296
      in if 2147483648 \<le> m then m - 4294967296 else m)"

definition timer_delay :: "nat \<Rightarrow> nat \<Rightarrow> nat" where
  "timer_delay nesting_level delay =
     (let t = to_int32 delay;
          t1 = (if t < 0 then 0 else t);
          t2 = (if 5 < nesting_level \<and> t1 < 4 then 4 else t1)
      in nat t2)"

datatype timer_callback = TimeoutCallback | PollCallback

datatype timer = Timer (timer_id: nat) (due: nat) (level: nat) (callback: timer_callback)

text \<open>
  One call of \<open>getResponsePromise\<close>: the clock, the timer nesting level of the running
  task, the local \<open>timeoutId\<close>, the pending
  timers, the promise returned to the caller (settled with a token or with the message
  of an \<open>Error\<close>), and the console warnings. Three fields only observe the run: the
  time at which the promise was settled, the number of timeout timers created, and the
  times at which \<open>checkLoaded\<close> ran.
\<close>

record polling =
  now :: nat
  nesting :: nat
  timeoutId :: "nat option"
  timers :: "timer list"
  next_timer_id :: nat
  promise :: "(string, string) promise"
  console :: "string list"
  settled_at :: "nat option"
  timeout_timers_created :: nat
  checks :: "nat list"

definition setTimeout :: "timer_callback \<Rightarrow> nat \<Rightarrow> polling \<Rightarrow> nat \<times> polling" where
  "setTimeout cb delay p =
     (next_timer_id p,
      p\<lparr>timers := timers p
          @ [Timer (next_timer_id p) (now p + timer_delay (nesting p) delay) (Suc (nesting p)) cb],
        next_timer_id := Suc (next_timer_id p)\<rparr>)"

definition clearTimeout :: "nat \<Rightarrow> polling \<Rightarrow> polling" where
  "clearTimeout i p = p\<lparr>timers := filter (\<lambda>t. timer_id t \<noteq> i) (timers p)\<rparr>"

text \<open>\<open>if (timeoutId) clearTimeout(timeoutId)\<close>: a handle of \<open>0\<close> would count as unset.\<close>

definition clear_timeout_if_set :: "polling \<Rightarrow> polling" where
  "clear_timeout_if_set p =
     (case timeoutId p of
        None \<Rightarrow> p
      | Some i \<Rightarrow> if i \<noteq> 0 then clearTimeout i p else p)"

definition resolve_returned :: "string \<Rightarrow> polling \<Rightarrow> polling" where
  "resolve_returned token p =
     p\<lparr>promise := resolve token (promise p),
       settled_at := (if promise p = Pending then Some (now p) else settled_at p)\<rparr>"

definition reject_returned :: "string \<Rightarrow> polling \<Rightarrow> polling" where
  "reject_returned message p =
     p\<lparr>promise := reject message (promise p),
       settled_at := (if promise p = Pending then Some (now p) else settled_at p)\<rparr>"

text \<open>The condition of line 199.\<close>

definition solved_and_present :: "('node, 'cfg) snapshot \<Rightarrow> bool" where
  "solved_and_present snap =
     (snap_widgetSolved snap \<and> snap_turnstile snap \<noteq> None \<and> truthy (snap_widgetId snap))"

text \<open>
  The catch block (lines 209--213). It is also where a missing \<open>getResponse\<close> method
  ends up, the call being inside the \<open>try\<close>.
\<close>

definition failed_to_get_response :: "polling \<Rightarrow> polling" where
  "failed_to_get_response p =
     (let p1 = clear_timeout_if_set p;
          p2 = p1\<lparr>console := console p1 @ [''Failed to get response'']\<rparr>
      in reject_returned ''Failed to get response'' p2)"

text \<open>
  One run of \<open>checkLoaded\<close> up to its first \<open>await\<close> (lines 198--223): either it settles
  the promise, or it leaves a poll timer behind, having created the timeout timer if
  \<open>timeoutId\<close> was unset.
\<close>

definition checkLoaded ::
  "(nat \<Rightarrow> ('node, 'cfg) snapshot) \<Rightarrow> nat \<Rightarrow> nat \<Rightarrow> polling \<Rightarrow> polling" where
  "checkLoaded world timeout retry p0 =
     (let snap = world (now p0);
          p = p0\<lparr>checks := checks p0 @ [now p0]\<rparr>
      in if solved_and_present snap
         then
           (case snap_widgetId snap of
              None \<Rightarrow> p \<comment> \<open>not reached: the condition asks for a non-empty id\<close>
            | Some wid \<Rightarrow>
                (case optional_method (snap_turnstile snap) api_getResponse of
                   None \<Rightarrow> failed_to_get_response p
                 | Some ext_getResponse \<Rightarrow>
                     (case ext_getResponse wid of
                        Throws error \<Rightarrow> failed_to_get_response p
                      | Returns token \<Rightarrow>
                          (let p1 = clear_timeout_if_set p
                           in case token of
                                None \<Rightarrow> reject_returned ''No response received'' p1
                              | Some tok \<Rightarrow>
                                  if tok \<noteq> [] then resolve_returned tok p1
                                  else reject_returned ''No response received'' p1))))
         else
           (let p1 = (case timeoutId p of
                        None \<Rightarrow>
                          (let (i, p') = setTimeout TimeoutCallback timeout p
                           in p'\<lparr>timeoutId := Some i,
                                timeout_timers_created := Suc (timeout_timers_created p')\<rparr>)
                      | Some i \<Rightarrow>
                          if i \<noteq> 0 then p
                          else
                            (let (i', p') = setTimeout TimeoutCallback timeout p
                             in p'\<lparr>timeoutId := Some i',
                                  timeout_timers_created := Suc (timeout_timers_created p')\<rparr>))
            in snd (setTimeout PollCallback retry p1)))"

text \<open>The timeout closure (lines 217--220).\<close>

definition timeout_callback :: "polling \<Rightarrow> polling" where
  "timeout_callback p = reject_returned ''Timeout'' (clear_timeout_if_set p)"

fun earlier :: "timer \<Rightarrow> timer \<Rightarrow> bool" where
  "earlier a b = (due a < due b \<or> (due a = due b \<and> timer_id a < timer_id b))"

fun next_timer :: "timer list \<Rightarrow> timer option" where
  "next_timer [] = None"
| "next_timer (t # ts) =
     (case next_timer ts of
        None \<Rightarrow> Some t
      | Some u \<Rightarrow> if earlier u t then Some u else Some t)"

text \<open>
  One turn of the event loop: the next timer fires, the clock moves to its due time, the
  task has the timer's nesting level, and its callback runs to the end. With no timer
  pending nothing happens any more.
\<close>

definition fire ::
  "(nat \<Rightarrow> ('node, 'cfg) snapshot) \<Rightarrow> nat \<Rightarrow> nat \<Rightarrow> polling \<Rightarrow> polling" where
  "fire world timeout retry p =
     (case next_timer (timers p) of
        None \<Rightarrow> p
      | Some t \<Rightarrow>
          (let p1 = p\<lparr>now := max (now p) (due t),
                      nesting := level t,
                      timers := filter (\<lambda>u. timer_id u \<noteq> timer_id t) (timers p)\<rparr>
           in case callback t of
                TimeoutCallback \<Rightarrow> timeout_callback p1
              | PollCallback \<Rightarrow> checkLoaded world timeout retry p1))"

fun run ::
  "(nat \<Rightarrow> ('node, 'cfg) snapshot) \<Rightarrow> nat \<Rightarrow> nat \<Rightarrow> nat \<Rightarrow> polling \<Rightarrow> polling" where
  "run world timeout retry 0 p = p"
| "run world timeout retry (Suc n) p = run world timeout retry n (fire world timeout retry p)"

text \<open>
  The state in which the executor of line 195 starts, given the timer nesting level of
  the task that makes the call: \<open>0\<close> for an event handler or an effect, more inside a
  timer callback.
\<close>

definition initial_polling :: "nat \<Rightarrow> polling" where
  "initial_polling caller_level =
     \<lparr>now = 0, nesting = caller_level, timeoutId = None, timers = [], next_timer_id = 1, promise = Pending,
      console = [], settled_at = None, timeout_timers_created = 0, checks = []\<rparr>"

text \<open>
  \<open>getResponsePromise(timeout, retry)\<close>: the state when the call returns, the executor
  having run \<open>checkLoaded()\<close> once.
\<close>

definition getResponsePromise ::
  "nat \<Rightarrow> (nat \<Rightarrow> ('node, 'cfg) snapshot) \<Rightarrow> nat \<Rightarrow> nat \<Rightarrow> polling" where
  "getResponsePromise caller_level world timeout retry =
     checkLoaded world timeout retry (initial_polling caller_level)"

text \<open>The state of the returned promise after \<open>n\<close> turns of the event loop.\<close>

definition promise_after ::
  "nat \<Rightarrow> (nat \<Rightarrow> ('node, 'cfg) snapshot) \<Rightarrow> nat \<Rightarrow> nat \<Rightarrow> nat \<Rightarrow> (string, string) promise" where
  "promise_after caller_level world timeout retry n =
     promise (run world timeout retry n (getResponsePromise caller_level world timeout retry))"

text \<open>The promise is settled with \<open>r\<close> from some turn on, for good.\<close>

definition settles_with ::
  "nat \<Rightarrow> (nat \<Rightarrow> ('node, 'cfg) snapshot) \<Rightarrow> nat \<Rightarrow> nat \<Rightarrow> (string, string) promise \<Rightarrow> bool" where
  "settles_with caller_level world timeout retry r =
     (r \<noteq> Pending \<and> (\<exists>n. \<forall>m\<ge>n. promise_after caller_level world timeout retry m = r))"

text \<open>A mounted instance that holds a widget id throughout, the library being present.\<close>

definition mounted_with_id :: "(nat \<Rightarrow> ('node, 'cfg) snapshot) \<Rightarrow> bool" where
  "mounted_with_id world =
     (\<forall>t. snap_turnstile (world t) \<noteq> None \<and> truthy (snap_widgetId (world t)))"

text \<open>
  When the checks are made and when the timeout timer is due, in milliseconds since the
  call: check \<open>0\<close> at the call, check \<open>k + 1\<close> one poll delay after check \<open>k\<close>, the
  poll timer having been set by the task of check \<open>k\<close>. For a \<open>retry\<close> from \<open>4\<close>
  to \<open>2^31 - 1\<close> that is every \<open>retry\<close> milliseconds, and for a \<open>timeout\<close> below
  \<open>2^31\<close> in a call not made from a deeply nested timer the timeout timer is due after
  \<open>timeout\<close> milliseconds.
\<close>

fun check_time :: "nat \<Rightarrow> nat \<Rightarrow> nat \<Rightarrow> nat" where
  "check_time caller_level retry 0 = 0"
| "check_time caller_level retry (Suc k) =
     check_time caller_level retry k + timer_delay (caller_level + k) retry"

definition timeout_due :: "nat \<Rightarrow> nat \<Rightarrow> nat" where
  "timeout_due caller_level timeout = timer_delay caller_level timeout"

text \<open>
  The states between two polls. After \<open>k\<close> checks that all found the widget unsolved,
  the poll timer \<open>k + 1\<close> is pending, due at the time of check \<open>k\<close>; the timeout timer,
  handle \<open>1\<close>, is either still pending, or it has fired and rejected the promise.
\<close>

definition between_polls :: "nat \<Rightarrow> nat \<Rightarrow> nat \<Rightarrow> nat \<Rightarrow> bool \<Rightarrow> polling \<Rightarrow> bool" where
  "between_polls caller_level timeout retry k fired p =
     (timeoutId p = Some 1 \<and> next_timer_id p = k + 2 \<and> timeout_timers_created p = 1
      \<and> checks p = map (check_time caller_level retry) [0..<k]
      \<and> now p \<le> check_time caller_level retry k
      \<and> (if fired
          then promise p = Rejected ''Timeout''
               \<and> settled_at p = Some (timeout_due caller_level timeout)
               \<and> timeout_due caller_level timeout \<le> check_time caller_level retry k
               \<and> timers p = [Timer (k + 1) (check_time caller_level retry k) (caller_level + k) PollCallback]
          else promise p = Pending \<and> settled_at p = None
               \<and> now p \<le> timeout_due caller_level timeout
               \<and> timers p
                  = [Timer 1 (timeout_due caller_level timeout) (Suc caller_level) TimeoutCallback,
                     Timer (k + 1) (check_time caller_level retry k) (caller_level + k) PollCallback]))"

text \<open>What a check that finds the widget solved settles the promise with.\<close>

definition token_result :: "('node, 'cfg) snapshot \<Rightarrow> (string, string) promise" where
  "token_result snap =
     (case snap_widgetId snap of
        None \<Rightarrow> Pending
      | Some wid \<Rightarrow>
          (case optional_method (snap_turnstile snap) api_getResponse of
             None \<Rightarrow> Rejected ''Failed to get response''
           | Some ext_getResponse \<Rightarrow>
               (case ext_getResponse wid of
                  Throws error \<Rightarrow> Rejected ''Failed to get response''
                | Returns None \<Rightarrow> Rejected ''No response received''
                | Returns (Some tok) \<Rightarrow>
                    if tok \<noteq> [] then Fulfilled tok else Rejected ''No response received'')))"

text \<open>What holds of every state of a run.\<close>

definition polling_inv :: "polling \<Rightarrow> bool" where
  "polling_inv p =
     ((\<forall>t\<in>set (timers p). callback t = TimeoutCallback \<longrightarrow>
          timeoutId p = Some (timer_id t) \<and> promise p = Pending)
      \<and> timeout_timers_created p = (if timeoutId p = None then 0 else 1)
      \<and> (timers p \<noteq> [] \<longrightarrow> (\<exists>i. timeoutId p = Some i \<and> 0 < i))
      \<and> (promise p = Pending \<longleftrightarrow> settled_at p = None))"

subsection \<open>Sample worlds\<close>

text \<open>The widget is solved from the given time on; the library answers as given.\<close>

definition solved_from :: "nat \<Rightarrow> (string, unit) turnstile_api \<Rightarrow> nat \<Rightarrow> (string, unit) snapshot" where
  "solved_from t0 api t =
     \<lparr>snap_widgetSolved = (t0 \<le> t), snap_turnstile = Some api, snap_widgetId = Some ''widget-1''\<rparr>"

definition never_solved :: "nat \<Rightarrow> (string, unit) snapshot" where
  "never_solved t =
     \<lparr>snap_widgetSolved = False, snap_turnstile = Some working_api, snap_widgetId = Some ''widget-1''\<rparr>"

definition tokenless_api :: "(string, unit) turnstile_api" where
  "tokenless_api = working_api\<lparr>api_getResponse := Some (\<lambda>wid. Returns None)\<rparr>"


section \<open>The loader: proofs\<close>

lemma loader_inv_init: "loader_inv module_init"
  by (simp add: loader_inv_def module_init_def turnstileLoadPromise_executor_def)

lemma loader_inv_ensure: "loader_inv l \<Longrightarrow> loader_inv (snd (ensureTurnstile g n l))"
  by (cases "window_assign g n")
    (auto simp: loader_inv_def ensureTurnstile_def Let_def split: if_splits)

lemma loader_inv_callback: "loader_inv l \<Longrightarrow> onload_closure l = Some c \<Longrightarrow> loader_inv (snd (onLoadCallback g c l))"
  by (cases "turnstileLoadPromise l")
    (auto simp: loader_inv_def onLoadCallback_def Let_def split: if_splits)

lemma slot_holds_closure: "loader_inv l \<Longrightarrow> window_slots l n = Some c \<Longrightarrow> onload_closure l = Some c"
  by (auto simp: loader_inv_def)

lemma loader_inv_step: "loader_inv l \<Longrightarrow> loader_inv (loader_step g e l)"
proof (cases e)
  case (EnsureTurnstile n)
  assume "loader_inv l"
  then show ?thesis using EnsureTurnstile by (simp add: loader_inv_ensure)
next
  case (InvokeGlobal n)
  assume inv: "loader_inv l"
  show ?thesis
  proof (cases "window_slots l n")
    case None
    then show ?thesis using inv InvokeGlobal by simp
  next
    case (Some c)
    from loader_inv_callback [OF inv slot_holds_closure [OF inv Some]]
    show ?thesis using InvokeGlobal Some by simp
  qed
next
  case InvokeClosure
  assume inv: "loader_inv l"
  show ?thesis
  proof (cases "onload_closure l")
    case None
    then show ?thesis using inv InvokeClosure by simp
  next
    case (Some c)
    from loader_inv_callback [OF inv Some]
    show ?thesis using InvokeClosure Some by simp
  qed
qed

lemma loader_inv_run: "loader_inv l \<Longrightarrow> loader_inv (loader_run g es l)"
  by (induction es arbitrary: l) (simp_all add: loader_inv_step)

lemma callback_makes_ready:
  "loader_inv l \<Longrightarrow> onload_closure l = Some c
   \<Longrightarrow> turnstileState l \<noteq> Unloaded
     \<and> turnstileState (snd (onLoadCallback g c l)) = Ready
     \<and> turnstileLoadPromise (snd (onLoadCallback g c l)) = Fulfilled ()"
  by (cases "turnstileLoadPromise l")
    (auto simp: loader_inv_def onLoadCallback_def Let_def split: if_splits)

lemma loader_step_move:
  assumes inv: "loader_inv l"
  shows "status_move (turnstileState l) (turnstileState (loader_step g e l))"
proof (cases e)
  case (EnsureTurnstile n)
  then show ?thesis
    by (cases "turnstileState l"; cases "window_assign g n")
      (simp_all add: ensureTurnstile_def Let_def)
next
  case (InvokeGlobal n)
  show ?thesis
  proof (cases "window_slots l n")
    case None
    then show ?thesis using InvokeGlobal by (cases "turnstileState l") simp_all
  next
    case (Some c)
    from callback_makes_ready [OF inv slot_holds_closure [OF inv Some], of g]
    show ?thesis using InvokeGlobal Some by (cases "turnstileState l") simp_all
  qed
next
  case InvokeClosure
  show ?thesis
  proof (cases "onload_closure l")
    case None
    then show ?thesis using InvokeClosure by (cases "turnstileState l") simp_all
  next
    case (Some c)
    from callback_makes_ready [OF inv Some, of g]
    show ?thesis using InvokeClosure Some by (cases "turnstileState l") simp_all
  qed
qed

text \<open>
  C1, as the claim states it, fails for a callback name that the global object does not
  let be assigned. The first call \<open>ensureTurnstile('document')\<close> moves the status to
  \<open>loading\<close> at line 36 and throws at line 37: no callback is installed and the caller
  gets no awaitable.
\<close>

theorem ensureTurnstile_refused_name_counterexample:
  "turnstileState module_init = Unloaded
   \<and> fst (ensureTurnstile page_global ''document'' module_init) = Throws TypeError
   \<and> fst (ensureTurnstile page_global ''document'' module_init) \<noteq> Returns TurnstileLoadPromise
   \<and> turnstileState (snd (ensureTurnstile page_global ''document'' module_init)) = Loading
   \<and> window_slots (snd (ensureTurnstile page_global ''document'' module_init)) ''document'' = None"
  by (simp add: ensureTurnstile_def module_init_def page_global_def Let_def)

text \<open>
  C1, amended. From module initialisation on, under any sequence of \<open>ensureTurnstile\<close>
  calls and invocations of the callback (through its global slot or directly), whatever
  the global object does with assignments and deletions: every step moves the status
  along \<open>unloaded \<rightarrow> loading \<rightarrow> ready\<close> or leaves it where it is. A call of
  \<open>ensureTurnstile\<close> in status \<open>unloaded\<close> moves the status to \<open>loading\<close> and leaves the
  promise as it is; if the global object stores a function under the given name, the
  callback is installed there and the call returns the shared promise; if it refuses the
  assignment, the call throws and nothing is installed; if it accepts the function
  without keeping it, nothing is installed under the name and the call returns the
  shared promise. A call in any other status changes nothing and returns the shared
  promise; after any call the status is no longer \<open>unloaded\<close>, so every later call is
  such a no-op, and every call that returns at all returns the shared promise. The
  promise is fulfilled exactly when the status is \<open>ready\<close>; a callback is installed or
  held only once the status has left \<open>unloaded\<close>, and invoking it fulfils the promise and
  sets the status to \<open>ready\<close>.
\<close>

theorem loader_state_machine:
  fixes g :: global_object and es :: "loader_event list"
  defines "l \<equiv> loader_run g es module_init"
  shows "(\<forall>e. status_move (turnstileState l) (turnstileState (loader_step g e l)))
       \<and> (\<forall>n. turnstileState l = Unloaded \<longrightarrow>
               turnstileState (snd (ensureTurnstile g n l)) = Loading
             \<and> turnstileLoadPromise (snd (ensureTurnstile g n l)) = turnstileLoadPromise l
             \<and> (window_assign g n = Stored \<longrightarrow>
                  fst (ensureTurnstile g n l) = Returns TurnstileLoadPromise
                \<and> window_slots (snd (ensureTurnstile g n l)) n = Some n)
             \<and> (window_assign g n = Refused \<longrightarrow>
                  fst (ensureTurnstile g n l) = Throws TypeError
                \<and> window_slots (snd (ensureTurnstile g n l)) = window_slots l)
             \<and> (window_assign g n = NotKept \<longrightarrow>
                  fst (ensureTurnstile g n l) = Returns TurnstileLoadPromise
                \<and> window_slots (snd (ensureTurnstile g n l)) = window_slots l))
       \<and> (\<forall>n. turnstileState l \<noteq> Unloaded \<longrightarrow>
               ensureTurnstile g n l = (Returns TurnstileLoadPromise, l))
       \<and> (\<forall>n. turnstileState (snd (ensureTurnstile g n l)) \<noteq> Unloaded)
       \<and> (\<forall>n r. fst (ensureTurnstile g n l) = Returns r \<longrightarrow> r = TurnstileLoadPromise)
       \<and> (turnstileLoadPromise l = Fulfilled () \<longleftrightarrow> turnstileState l = Ready)
       \<and> (\<forall>n c. window_slots l n = Some c \<longrightarrow>
               c = n \<and> turnstileState l \<noteq> Unloaded
             \<and> turnstileState (loader_step g (InvokeGlobal n) l) = Ready
             \<and> turnstileLoadPromise (loader_step g (InvokeGlobal n) l) = Fulfilled ())
       \<and> (\<forall>c. onload_closure l = Some c \<longrightarrow>
               turnstileState l \<noteq> Unloaded
             \<and> turnstileState (loader_step g InvokeClosure l) = Ready
             \<and> turnstileLoadPromise (loader_step g InvokeClosure l) = Fulfilled ())"
proof -
  have inv: "loader_inv l"
    unfolding l_def by (rule loader_inv_run [OF loader_inv_init])
  have move: "\<forall>e. status_move (turnstileState l) (turnstileState (loader_step g e l))"
    using loader_step_move [OF inv] by blast
  have first: "\<forall>n. turnstileState l = Unloaded \<longrightarrow>
               turnstileState (snd (ensureTurnstile g n l)) = Loading
             \<and> turnstileLoadPromise (snd (ensureTurnstile g n l)) = turnstileLoadPromise l
             \<and> (window_assign g n = Stored \<longrightarrow>
                  fst (ensureTurnstile g n l) = Returns TurnstileLoadPromise
                \<and> window_slots (snd (ensureTurnstile g n l)) n = Some n)
             \<and> (window_assign g n = Refused \<longrightarrow>
                  fst (ensureTurnstile g n l) = Throws TypeError
                \<and> window_slots (snd (ensureTurnstile g n l)) = window_slots l)
             \<and> (window_assign g n = NotKept \<longrightarrow>
                  fst (ensureTurnstile g n l) = Returns TurnstileLoadPromise
                \<and> window_slots (snd (ensureTurnstile g n l)) = window_slots l)"
  proof (intro allI impI)
    fix n
    assume "turnstileState l = Unloaded"
    then show "turnstileState (snd (ensureTurnstile g n l)) = Loading
             \<and> turnstileLoadPromise (snd (ensureTurnstile g n l)) = turnstileLoadPromise l
             \<and> (window_assign g n = Stored \<longrightarrow>
                  fst (ensureTurnstile g n l) = Returns TurnstileLoadPromise
                \<and> window_slots (snd (ensureTurnstile g n l)) n = Some n)
             \<and> (window_assign g n = Refused \<longrightarrow>
                  fst (ensureTurnstile g n l) = Throws TypeError
                \<and> window_slots (snd (ensureTurnstile g n l)) = window_slots l)
             \<and> (window_assign g n = NotKept \<longrightarrow>
                  fst (ensureTurnstile g n l) = Returns TurnstileLoadPromise
                \<and> window_slots (snd (ensureTurnstile g n l)) = window_slots l)"
      by (cases "window_assign g n") (simp_all add: ensureTurnstile_def Let_def)
  qed
  have later: "\<forall>n. turnstileState l \<noteq> Unloaded \<longrightarrow>
               ensureTurnstile g n l = (Returns TurnstileLoadPromise, l)"
    by (simp add: ensureTurnstile_def)
  have left: "\<forall>n. turnstileState (snd (ensureTurnstile g n l)) \<noteq> Unloaded"
  proof
    fix n
    show "turnstileState (snd (ensureTurnstile g n l)) \<noteq> Unloaded"
      by (cases "window_assign g n") (simp_all add: ensureTurnstile_def Let_def)
  qed
  have same: "\<forall>n r. fst (ensureTurnstile g n l) = Returns r \<longrightarrow> r = TurnstileLoadPromise"
  proof (intro allI impI)
    fix n r
    assume "fst (ensureTurnstile g n l) = Returns r"
    then show "r = TurnstileLoadPromise"
      by (cases "window_assign g n") (auto simp: ensureTurnstile_def Let_def split: if_splits)
  qed
  have ful: "turnstileLoadPromise l = Fulfilled () \<longleftrightarrow> turnstileState l = Ready"
    using inv by (auto simp: loader_inv_def)
  have fire: "\<forall>n c. window_slots l n = Some c \<longrightarrow>
               c = n \<and> turnstileState l \<noteq> Unloaded
             \<and> turnstileState (loader_step g (InvokeGlobal n) l) = Ready
             \<and> turnstileLoadPromise (loader_step g (InvokeGlobal n) l) = Fulfilled ()"
  proof (intro allI impI)
    fix n c
    assume s: "window_slots l n = Some c"
    from inv s have "c = n" by (auto simp: loader_inv_def)
    with callback_makes_ready [OF inv slot_holds_closure [OF inv s], of g] s
    show "c = n \<and> turnstileState l \<noteq> Unloaded
             \<and> turnstileState (loader_step g (InvokeGlobal n) l) = Ready
             \<and> turnstileLoadPromise (loader_step g (InvokeGlobal n) l) = Fulfilled ()"
      by simp
  qed
  have direct: "\<forall>c. onload_closure l = Some c \<longrightarrow>
               turnstileState l \<noteq> Unloaded
             \<and> turnstileState (loader_step g InvokeClosure l) = Ready
             \<and> turnstileLoadPromise (loader_step g InvokeClosure l) = Fulfilled ()"
  proof (intro allI impI)
    fix c
    assume s: "onload_closure l = Some c"
    with callback_makes_ready [OF inv s, of g]
    show "turnstileState l \<noteq> Unloaded
             \<and> turnstileState (loader_step g InvokeClosure l) = Ready
             \<and> turnstileLoadPromise (loader_step g InvokeClosure l) = Fulfilled ()"
      by simp
  qed
  from move first later left same ful fire direct show ?thesis by blast
qed

theorem loader_state_machine_witness:
  "turnstileState (loader_run page_global [] module_init) = Unloaded
   \<and> window_assign page_global ''onloadTurnstileCallback'' = Stored
   \<and> ensureTurnstile page_global ''onloadTurnstileCallback'' (loader_run page_global [] module_init)
       = (Returns TurnstileLoadPromise,
          loader_run page_global [EnsureTurnstile ''onloadTurnstileCallback''] module_init)
   \<and> turnstileState (loader_run page_global [EnsureTurnstile ''onloadTurnstileCallback''] module_init) = Loading
   \<and> window_slots (loader_run page_global [EnsureTurnstile ''onloadTurnstileCallback''] module_init)
        ''onloadTurnstileCallback'' = Some ''onloadTurnstileCallback''
   \<and> ensureTurnstile page_global ''other''
        (loader_run page_global [EnsureTurnstile ''onloadTurnstileCallback''] module_init)
       = (Returns TurnstileLoadPromise,
          loader_run page_global [EnsureTurnstile ''onloadTurnstileCallback''] module_init)
   \<and> turnstileState (loader_step page_global (InvokeGlobal ''onloadTurnstileCallback'')
        (loader_run page_global [EnsureTurnstile ''onloadTurnstileCallback''] module_init)) = Ready
   \<and> turnstileLoadPromise (loader_step page_global (InvokeGlobal ''onloadTurnstileCallback'')
        (loader_run page_global [EnsureTurnstile ''onloadTurnstileCallback''] module_init)) = Fulfilled ()
   \<and> window_assign page_global ''document'' = Refused
   \<and> fst (ensureTurnstile page_global ''document'' (loader_run page_global [] module_init))
       = Throws TypeError"
proof -
  let ?cb = "''onloadTurnstileCallback''"
  have u: "turnstileState (loader_run page_global [] module_init) = Unloaded"
    by (simp add: module_init_def)
  have a: "window_assign page_global ?cb = Stored" "window_assign page_global ''document'' = Refused"
    by (simp_all add: page_global_def)
  have e: "ensureTurnstile page_global ?cb (loader_run page_global [] module_init)
       = (Returns TurnstileLoadPromise, loader_run page_global [EnsureTurnstile ?cb] module_init)"
    by (simp add: module_init_def ensureTurnstile_def page_global_def Let_def)
  have s: "window_slots (loader_run page_global [EnsureTurnstile ?cb] module_init) ?cb = Some ?cb"
    by (simp add: module_init_def ensureTurnstile_def page_global_def Let_def)
  have n: "turnstileState (loader_run page_global [EnsureTurnstile ?cb] module_init) = Loading"
    by (simp add: module_init_def ensureTurnstile_def page_global_def Let_def)
  show ?thesis
    using u a e s n loader_state_machine [of page_global "[]"]
      loader_state_machine [of page_global "[EnsureTurnstile ?cb]"]
    by (metis turnstile_status.distinct(1))
qed

lemma module_init_pending:
  "turnstileState module_init = Unloaded \<and> turnstileLoadPromise module_init = Pending"
  by (simp add: module_init_def turnstileLoadPromise_executor_def)






text \<open>
  The component does not depend on the promise when the library is already there: the
  fallback effect marks it as loaded.
\<close>

lemma fallback_marks_loaded:
  "mark_loaded_if_present True False True = True
   \<and> mark_loaded_if_present scriptLoaded True present = True
   \<and> (\<not> present \<longrightarrow> mark_loaded_if_present scriptLoaded loaded present = loaded)"
  by (simp add: mark_loaded_if_present_def)

section \<open>The imperative handle: proofs\<close>

lemmas handle_defs =
  reset_def remove_def render_def execute_def getResponse_def isExpired_def
  renderWidget_render_def renderWidget_cleanup_def success_callback_def
  reset_ready_def remove_ready_def render_ready_def execute_ready_def
  checkIfTurnstileLoaded_def log_effect_def notify_widget_load_def Let_def

lemmas sample_defs =
  working_api_def throwing_api_def idless_api_def sample_closure_def sample_instance_def

lemma reset_never_throws: "fst (reset cl wt s) = Returns ()"
  by (simp add: reset_def Let_def split: option.splits outcome.splits)

text \<open>
  C10. When the preconditions of \<open>reset()\<close> hold, the solved flag is false after the call
  and, in \<open>execute\<close> mode, the container style is the invisible one, whatever the external
  reset does; in particular when it throws, in which case \<open>reset()\<close> still returns
  normally with that state.
\<close>

theorem reset_state_kept_on_throw:
  assumes "reset_ready cl wt s"
  shows "widgetSolved (snd (reset cl wt s)) = False
       \<and> (options_execution cl = Some ''execute'' \<longrightarrow>
            containerStyle (snd (reset cl wt s)) = CONTAINER_STYLE_SET cl ''invisible'')
       \<and> (\<forall>ext wid error.
            optional_method (turnstile cl) api_reset = Some ext \<and> widgetId s = Some wid
            \<and> ext wid = Throws error \<longrightarrow>
              fst (reset cl wt s) = Returns ()
            \<and> widgetSolved (snd (reset cl wt s)) = False
            \<and> widgetId (snd (reset cl wt s)) = Some wid)"
  using assms
  by (auto simp: handle_defs split: option.splits outcome.splits)

theorem reset_state_kept_on_throw_witness:
  "reset_ready (sample_closure throwing_api (Some ''execute'')) (Some throwing_api)
     (sample_instance (Some ''widget-1''))
   \<and> widgetSolved (sample_instance (Some ''widget-1'')) = True
   \<and> widgetSolved (snd (reset (sample_closure throwing_api (Some ''execute'')) (Some throwing_api)
        (sample_instance (Some ''widget-1'')))) = False
   \<and> containerStyle (snd (reset (sample_closure throwing_api (Some ''execute'')) (Some throwing_api)
        (sample_instance (Some ''widget-1'')))) = ''invisible''
   \<and> fst (reset (sample_closure throwing_api (Some ''execute'')) (Some throwing_api)
        (sample_instance (Some ''widget-1''))) = Returns ()"
proof -
  let ?cl = "sample_closure throwing_api (Some ''execute'')"
  let ?s = "sample_instance (Some ''widget-1'')"
  have ready: "reset_ready ?cl (Some throwing_api) ?s"
    by (simp add: reset_ready_def checkIfTurnstileLoaded_def sample_defs)
  have ext: "optional_method (turnstile ?cl) api_reset = Some (\<lambda>wid. Throws (External ''reset failed''))
      \<and> widgetId ?s = Some ''widget-1''"
    by (simp add: sample_defs)
  have mode: "options_execution ?cl = Some ''execute'' \<and> CONTAINER_STYLE_SET ?cl ''invisible'' = ''invisible''"
    by (simp add: sample_defs)
  have solved: "widgetSolved ?s = True"
    by (simp add: sample_defs)
  from reset_state_kept_on_throw [OF ready] ready ext mode solved show ?thesis
    by metis
qed

text \<open>
  C4, as the claim states it for \<open>remove()\<close>, fails: with the preconditions of \<open>remove()\<close>
  satisfied and an external remove that throws, the caller of \<open>remove()\<close> receives the
  exception.
\<close>

theorem remove_propagates_counterexample:
  "remove_ready (sample_closure throwing_api None) (Some throwing_api) (sample_instance (Some ''widget-1''))
   \<and> fst (remove (sample_closure throwing_api None) (Some throwing_api) (sample_instance (Some ''widget-1'')))
       = Throws (External ''remove failed'')"
  by (simp add: handle_defs sample_defs)

text \<open>
  C4, amended. \<open>reset()\<close> never passes an exception to its caller; when its preconditions
  hold and the external reset throws, the error is logged with a warning after the call.
  \<open>remove()\<close> has no handler: when its preconditions hold and the external remove throws,
  the exception reaches the caller of \<open>remove()\<close>, nothing is logged, and the widget id
  stays stored.
\<close>

theorem reset_swallows_remove_propagates:
  "fst (reset cl wt s) = Returns ()
   \<and> (\<forall>ext wid error.
        reset_ready cl wt s \<and> optional_method (turnstile cl) api_reset = Some ext
        \<and> widgetId s = Some wid \<and> ext wid = Throws error \<longrightarrow>
          effects (snd (reset cl wt s))
            = effects s @ [ExtReset wid, Warn failed_to_reset (Some error)])
   \<and> (\<forall>ext wid error.
        remove_ready cl wt s \<and> optional_method (turnstile cl) api_remove = Some ext
        \<and> widgetId s = Some wid \<and> ext wid = Throws error \<longrightarrow>
          fst (remove cl wt s) = Throws error
        \<and> effects (snd (remove cl wt s)) = effects s @ [ExtRemove wid]
        \<and> widgetId (snd (remove cl wt s)) = Some wid)"
proof -
  have a: "fst (reset cl wt s) = Returns ()"
    by (rule reset_never_throws)
  have b: "\<forall>ext wid error.
        reset_ready cl wt s \<and> optional_method (turnstile cl) api_reset = Some ext
        \<and> widgetId s = Some wid \<and> ext wid = Throws error \<longrightarrow>
          effects (snd (reset cl wt s))
            = effects s @ [ExtReset wid, Warn failed_to_reset (Some error)]"
    by (auto simp: handle_defs)
  have c: "\<forall>ext wid error.
        remove_ready cl wt s \<and> optional_method (turnstile cl) api_remove = Some ext
        \<and> widgetId s = Some wid \<and> ext wid = Throws error \<longrightarrow>
          fst (remove cl wt s) = Throws error
        \<and> effects (snd (remove cl wt s)) = effects s @ [ExtRemove wid]
        \<and> widgetId (snd (remove cl wt s)) = Some wid"
    by (auto simp: handle_defs)
  from a b c show ?thesis by blast
qed

theorem reset_swallows_remove_propagates_witness:
  "fst (reset (sample_closure throwing_api None) (Some throwing_api) (sample_instance (Some ''widget-1'')))
     = Returns ()
   \<and> effects (snd (reset (sample_closure throwing_api None) (Some throwing_api)
        (sample_instance (Some ''widget-1''))))
     = [ExtReset ''widget-1'', Warn failed_to_reset (Some (External ''reset failed''))]
   \<and> fst (remove (sample_closure throwing_api None) (Some throwing_api) (sample_instance (Some ''widget-1'')))
     = Throws (External ''remove failed'')
   \<and> widgetId (snd (remove (sample_closure throwing_api None) (Some throwing_api)
        (sample_instance (Some ''widget-1'')))) = Some ''widget-1''"
proof -
  let ?cl = "sample_closure throwing_api None"
  let ?s = "sample_instance (Some ''widget-1'')"
  have r1: "reset_ready ?cl (Some throwing_api) ?s \<and> remove_ready ?cl (Some throwing_api) ?s"
    by (simp add: reset_ready_def remove_ready_def checkIfTurnstileLoaded_def sample_defs)
  have e1: "optional_method (turnstile ?cl) api_reset = Some (\<lambda>wid. Throws (External ''reset failed''))
      \<and> optional_method (turnstile ?cl) api_remove = Some (\<lambda>wid. Throws (External ''remove failed''))
      \<and> widgetId ?s = Some ''widget-1'' \<and> effects ?s = []"
    by (simp add: sample_defs)
  from reset_swallows_remove_propagates [of ?cl "Some throwing_api" ?s] r1 e1 show ?thesis
    by simp
qed

text \<open>
  C5. \<open>render()\<close> with its preconditions satisfied (library with a \<open>render\<close> method,
  container node, library loaded, no id held) calls the external render once, with the
  container and the current configuration; when that call returns an id, the id is
  stored and returned, and the \<open>onWidgetLoad\<close> hook, if one was given, is called once
  with it. With any precondition unmet, and so whenever an id is held, \<open>render()\<close> logs
  one warning, returns nothing, calls nothing and leaves every other part of the
  instance as it was.
\<close>

theorem render_once_or_warn:
  "(\<forall>ext node wid.
      render_ready cl wt s \<and> optional_method (turnstile cl) api_render = Some ext
      \<and> containerRef s = Some node
      \<and> ext node (renderConfig cl) = Returns (Some wid) \<and> wid \<noteq> [] \<longrightarrow>
        fst (render cl wt s) = Returns (Some wid)
      \<and> widgetId (snd (render cl wt s)) = Some wid
      \<and> effects (snd (render cl wt s))
          = effects s @ [ExtRender node (renderConfig cl)]
            @ (if onWidgetLoad_given cl then [OnWidgetLoad wid] else []))
   \<and> (\<not> render_ready cl wt s \<longrightarrow>
        render cl wt s = (Returns None, s\<lparr>effects := effects s @ [Warn not_loaded_or_no_container None]\<rparr>))
   \<and> (truthy (widgetId s) \<longrightarrow> \<not> render_ready cl wt s)"
proof -
  have a: "\<forall>ext node wid.
      render_ready cl wt s \<and> optional_method (turnstile cl) api_render = Some ext
      \<and> containerRef s = Some node
      \<and> ext node (renderConfig cl) = Returns (Some wid) \<and> wid \<noteq> [] \<longrightarrow>
        fst (render cl wt s) = Returns (Some wid)
      \<and> widgetId (snd (render cl wt s)) = Some wid
      \<and> effects (snd (render cl wt s))
          = effects s @ [ExtRender node (renderConfig cl)]
            @ (if onWidgetLoad_given cl then [OnWidgetLoad wid] else [])"
    by (auto simp: handle_defs)
  have b: "\<not> render_ready cl wt s \<longrightarrow>
        render cl wt s = (Returns None, s\<lparr>effects := effects s @ [Warn not_loaded_or_no_container None]\<rparr>)"
    by (auto simp: handle_defs split: option.splits)
  have c: "truthy (widgetId s) \<longrightarrow> \<not> render_ready cl wt s"
    by (simp add: render_ready_def)
  from a b c show ?thesis by blast
qed

theorem render_once_or_warn_witness:
  "render_ready (sample_closure working_api None) (Some working_api) (sample_instance None)
   \<and> render (sample_closure working_api None) (Some working_api) (sample_instance None)
      = (Returns (Some ''widget-2''),
         (sample_instance (Some ''widget-2''))
           \<lparr>containerStyle := ''compact'',
            effects := [ExtRender ''cf-turnstile'' (), OnWidgetLoad ''widget-2'']\<rparr>)
   \<and> \<not> render_ready (sample_closure working_api None) (Some working_api) (sample_instance (Some ''widget-1''))
   \<and> render (sample_closure working_api None) (Some working_api) (sample_instance (Some ''widget-1''))
      = (Returns None,
         (sample_instance (Some ''widget-1''))\<lparr>effects := [Warn not_loaded_or_no_container None]\<rparr>)"
proof -
  let ?cl = "sample_closure working_api None"
  have r0: "render_ready ?cl (Some working_api) (sample_instance None)"
    by (simp add: render_ready_def checkIfTurnstileLoaded_def sample_defs)
  have r1: "\<not> render_ready ?cl (Some working_api) (sample_instance (Some ''widget-1''))"
    by (simp add: render_ready_def checkIfTurnstileLoaded_def sample_defs)
  have ok: "render ?cl (Some working_api) (sample_instance None)
      = (Returns (Some ''widget-2''),
         (sample_instance (Some ''widget-2''))
           \<lparr>containerStyle := ''compact'',
            effects := [ExtRender ''cf-turnstile'' (), OnWidgetLoad ''widget-2'']\<rparr>)"
    by (simp add: handle_defs sample_defs)
  have e: "effects (sample_instance (Some ''widget-1'')) = []"
    by (simp add: sample_defs)
  from render_once_or_warn [of ?cl "Some working_api" "sample_instance (Some ''widget-1'')"] r0 r1 ok e
  show ?thesis by simp
qed

text \<open>
  What \<open>render()\<close> does for any value the external render returns: the value is stored
  as it is, and the hook is called only for a non-empty id.
\<close>

lemma render_stores_returned_value:
  "render_ready cl wt s \<Longrightarrow> optional_method (turnstile cl) api_render = Some ext
   \<Longrightarrow> containerRef s = Some node \<Longrightarrow> ext node (renderConfig cl) = Returns v
   \<Longrightarrow> widgetId (snd (render cl wt s)) = v
     \<and> effects (snd (render cl wt s))
        = effects s @ [ExtRender node (renderConfig cl)]
          @ (if truthy v \<and> onWidgetLoad_given cl then [OnWidgetLoad (the v)] else [])"
  by (cases v) (auto simp: handle_defs)

text \<open>
  C7. \<open>execute()\<close> with execution mode \<open>execute\<close>, a library with an \<open>execute\<close> method, a
  container node, a widget id and the library loaded calls the external execute once
  with the container and the current configuration and, when that call returns, sets
  the container style to the style table's entry for the configured size. In every
  other case it logs one warning, calls nothing and changes nothing else.
\<close>

theorem execute_only_when_ready:
  "(\<forall>ext node.
      execute_ready cl wt s \<and> optional_method (turnstile cl) api_execute = Some ext
      \<and> containerRef s = Some node \<longrightarrow>
        effects (snd (execute cl wt s)) = effects s @ [ExtExecute node (renderConfig cl)]
      \<and> (\<forall>u. ext node (renderConfig cl) = Returns u \<longrightarrow>
            execute cl wt s
              = (Returns (),
                 s\<lparr>containerStyle := CONTAINER_STYLE_SET cl (widgetSize cl),
                   effects := effects s @ [ExtExecute node (renderConfig cl)]\<rparr>)))
   \<and> (\<not> execute_ready cl wt s \<longrightarrow>
        execute cl wt s
          = (Returns (),
             s\<lparr>effects := effects s
                 @ [Warn (if options_execution cl \<noteq> Some ''execute'' then not_execute_mode
                          else not_loaded_or_no_container) None]\<rparr>))"
proof -
  have a: "\<forall>ext node.
      execute_ready cl wt s \<and> optional_method (turnstile cl) api_execute = Some ext
      \<and> containerRef s = Some node \<longrightarrow>
        effects (snd (execute cl wt s)) = effects s @ [ExtExecute node (renderConfig cl)]
      \<and> (\<forall>u. ext node (renderConfig cl) = Returns u \<longrightarrow>
            execute cl wt s
              = (Returns (),
                 s\<lparr>containerStyle := CONTAINER_STYLE_SET cl (widgetSize cl),
                   effects := effects s @ [ExtExecute node (renderConfig cl)]\<rparr>))"
    by (auto simp: handle_defs split: outcome.splits)
  have b: "\<not> execute_ready cl wt s \<longrightarrow>
        execute cl wt s
          = (Returns (),
             s\<lparr>effects := effects s
                 @ [Warn (if options_execution cl \<noteq> Some ''execute'' then not_execute_mode
                          else not_loaded_or_no_container) None]\<rparr>)"
    by (auto simp: handle_defs split: option.splits)
  from a b show ?thesis by blast
qed

theorem execute_only_when_ready_witness:
  "execute_ready (sample_closure working_api (Some ''execute'')) (Some working_api)
     (sample_instance (Some ''widget-1''))
   \<and> execute (sample_closure working_api (Some ''execute'')) (Some working_api)
       (sample_instance (Some ''widget-1''))
      = (Returns (),
         (sample_instance (Some ''widget-1''))
           \<lparr>containerStyle := ''compact'', effects := [ExtExecute ''cf-turnstile'' ()]\<rparr>)
   \<and> \<not> execute_ready (sample_closure working_api (Some ''render'')) (Some working_api)
       (sample_instance (Some ''widget-1''))
   \<and> execute (sample_closure working_api (Some ''render'')) (Some working_api)
       (sample_instance (Some ''widget-1''))
      = (Returns (), (sample_instance (Some ''widget-1''))\<lparr>effects := [Warn not_execute_mode None]\<rparr>)"
proof -
  let ?cl = "sample_closure working_api (Some ''execute'')"
  let ?cr = "sample_closure working_api (Some ''render'')"
  let ?s = "sample_instance (Some ''widget-1'')"
  have r0: "execute_ready ?cl (Some working_api) ?s"
    by (simp add: execute_ready_def checkIfTurnstileLoaded_def sample_defs)
  have r1: "\<not> execute_ready ?cr (Some working_api) ?s"
    by (simp add: execute_ready_def sample_defs)
  have e: "optional_method (turnstile ?cl) api_execute = Some (\<lambda>node cfg. Returns ())
      \<and> containerRef ?s = Some ''cf-turnstile'' \<and> effects ?s = []
      \<and> CONTAINER_STYLE_SET ?cl (widgetSize ?cl) = ''compact'' \<and> renderConfig ?cl = ()
      \<and> options_execution ?cr = Some ''render''"
    by (simp add: sample_defs)
  from execute_only_when_ready [of ?cl "Some working_api" ?s]
    execute_only_when_ready [of ?cr "Some working_api" ?s] r0 r1 e
  show ?thesis by simp
qed

section \<open>The render effect: proofs\<close>







text \<open>
  C9, as the claim states it, fails in its first half: an operation other than
  \<open>remove()\<close> can leave the instance without an id it held before. After a cleanup the
  id of the removed widget is still stored; when the effect runs again and the external
  render gives no id back, that result overwrites the stored id.
\<close>

theorem only_remove_clears_id_counterexample:
  "\<not> (\<forall>(op :: operation) (cl :: (string, unit, string) closure) wt cancelled s.
        truthy (widgetId s) \<and> \<not> truthy (widgetId (perform op cl wt cancelled s)) \<longrightarrow> op = Remove)"
proof
  assume h: "\<forall>(op :: operation) (cl :: (string, unit, string) closure) wt cancelled s.
        truthy (widgetId s) \<and> \<not> truthy (widgetId (perform op cl wt cancelled s)) \<longrightarrow> op = Remove"
  have "truthy (widgetId (sample_instance (Some ''widget-1'')))
      \<and> \<not> truthy (widgetId (perform EffectRender (sample_closure idless_api None) (Some idless_api) False
            (sample_instance (Some ''widget-1''))))"
    by (simp add: handle_defs sample_defs)
  with h have "EffectRender = Remove" by blast
  then show False by simp
qed

lemma perform_keeps_or_names_writer:
  assumes "truthy (widgetId s)" and "\<not> truthy (widgetId (perform op cl wt cancelled s))"
  shows "op = Remove
       \<or> (op = EffectRender
          \<and> (\<exists>ext node v. optional_method wt api_render = Some ext \<and> containerRef s = Some node
                \<and> ext node (renderConfig cl) = Returns v \<and> \<not> truthy v))"
proof (cases op)
  case EffectRender
  then show ?thesis using assms
    by (auto simp: handle_defs split: option.splits outcome.splits if_splits)
next
  case Render
  then show ?thesis using assms
    by (auto simp: handle_defs split: option.splits outcome.splits if_splits)
qed (use assms in \<open>auto simp: handle_defs split: option.splits outcome.splits if_splits\<close>)

text \<open>
  C9, amended. An operation that leaves the instance without the id it held is either
  \<open>remove()\<close>, or the render of the automatic effect storing a null, undefined or empty
  result of the external render over it; no other operation does so. \<open>remove()\<close> with
  its preconditions satisfied and an external remove that returns sets the stored id
  to null. The cleanup of the render effect leaves the stored id unchanged, and for a
  stored non-empty id it calls the external remove with that id: after the cleanup the
  instance still holds the id of the removed widget.
\<close>

theorem cleanup_keeps_id_remove_clears_it:
  "(truthy (widgetId s) \<and> \<not> truthy (widgetId (perform op cl wt cancelled s)) \<longrightarrow>
      op = Remove
    \<or> (op = EffectRender
       \<and> (\<exists>ext node v. optional_method wt api_render = Some ext \<and> containerRef s = Some node
             \<and> ext node (renderConfig cl) = Returns v \<and> \<not> truthy v)))
   \<and> (\<forall>ext wid u.
        remove_ready cl wt s \<and> optional_method (turnstile cl) api_remove = Some ext
        \<and> widgetId s = Some wid \<and> ext wid = Returns u \<longrightarrow>
          widgetId (snd (remove cl wt s)) = None)
   \<and> widgetId (snd (snd (renderWidget_cleanup wt cancelled s))) = widgetId s
   \<and> (\<forall>ext wid.
        widgetId s = Some wid \<and> wid \<noteq> [] \<and> optional_method wt api_remove = Some ext \<longrightarrow>
          snd (snd (renderWidget_cleanup wt cancelled s)) = s\<lparr>effects := effects s @ [ExtRemove wid]\<rparr>)"
proof -
  have a: "truthy (widgetId s) \<and> \<not> truthy (widgetId (perform op cl wt cancelled s)) \<longrightarrow>
      op = Remove
    \<or> (op = EffectRender
       \<and> (\<exists>ext node v. optional_method wt api_render = Some ext \<and> containerRef s = Some node
             \<and> ext node (renderConfig cl) = Returns v \<and> \<not> truthy v))"
    using perform_keeps_or_names_writer by blast
  have b: "\<forall>ext wid u.
        remove_ready cl wt s \<and> optional_method (turnstile cl) api_remove = Some ext
        \<and> widgetId s = Some wid \<and> ext wid = Returns u \<longrightarrow>
          widgetId (snd (remove cl wt s)) = None"
    by (auto simp: handle_defs)
  have c: "widgetId (snd (snd (renderWidget_cleanup wt cancelled s))) = widgetId s"
    by (simp add: handle_defs split: option.splits)
  have d: "\<forall>ext wid.
        widgetId s = Some wid \<and> wid \<noteq> [] \<and> optional_method wt api_remove = Some ext \<longrightarrow>
          snd (snd (renderWidget_cleanup wt cancelled s)) = s\<lparr>effects := effects s @ [ExtRemove wid]\<rparr>"
    by (auto simp: handle_defs)
  from a b c d show ?thesis by blast
qed

theorem cleanup_keeps_id_remove_clears_it_witness:
  "widgetId (snd (snd (renderWidget_cleanup (Some working_api) False (sample_instance (Some ''widget-1'')))))
     = Some ''widget-1''
   \<and> effects (snd (snd (renderWidget_cleanup (Some working_api) False (sample_instance (Some ''widget-1'')))))
     = [ExtRemove ''widget-1'']
   \<and> remove_ready (sample_closure working_api None) (Some working_api) (sample_instance (Some ''widget-1''))
   \<and> widgetId (snd (remove (sample_closure working_api None) (Some working_api)
        (sample_instance (Some ''widget-1'')))) = None"
proof -
  let ?cl = "sample_closure working_api None"
  let ?s = "sample_instance (Some ''widget-1'')"
  have r: "remove_ready ?cl (Some working_api) ?s"
    by (simp add: remove_ready_def checkIfTurnstileLoaded_def sample_defs)
  have e: "optional_method (turnstile ?cl) api_remove = Some (\<lambda>wid. Returns ())
      \<and> optional_method (Some working_api) api_remove = Some (\<lambda>wid. Returns ())
      \<and> widgetId ?s = Some ''widget-1'' \<and> effects ?s = []"
    by (simp add: sample_defs)
  from cleanup_keeps_id_remove_clears_it [of ?s Remove ?cl "Some working_api" False] r e
  show ?thesis by simp
qed

section \<open>getResponsePromise: proofs\<close>

lemmas polling_defs =
  checkLoaded_def fire_def timeout_callback_def failed_to_get_response_def
  clear_timeout_if_set_def clearTimeout_def setTimeout_def
  resolve_returned_def reject_returned_def Let_def

subsection \<open>Timer delays\<close>

lemma to_int32_le: "to_int32 d \<le> int d"
proof -
  have "int d mod 4294967296 \<le> int d"
    by (rule zmod_le_nonneg_dividend) simp
  then show ?thesis by (auto simp: to_int32_def Let_def)
qed

lemma timer_delay_plain:
  assumes "d < 2147483648" and "lv \<le> 5 \<or> 4 \<le> d"
  shows "timer_delay lv d = d"
proof -
  from assms(1) have "int d mod 4294967296 = int d" by simp
  with assms show ?thesis by (auto simp: timer_delay_def to_int32_def Let_def)
qed

lemma timer_delay_raised:
  assumes "d < 4" and "5 < lv"
  shows "timer_delay lv d = 4"
proof -
  from assms(1) have "int d mod 4294967296 = int d" by simp
  with assms show ?thesis by (auto simp: timer_delay_def to_int32_def Let_def)
qed

lemma timer_delay_le:
  assumes "lv \<le> 5"
  shows "timer_delay lv d \<le> d"
  using assms to_int32_le [of d] by (auto simp: timer_delay_def Let_def)

lemma timer_delay_le_max: "timer_delay lv d \<le> max d 4"
  using to_int32_le [of d] by (auto simp: timer_delay_def Let_def)

lemma timer_delay_ge:
  assumes "5 < lv"
  shows "4 \<le> timer_delay lv d"
  using assms by (auto simp: timer_delay_def Let_def)

lemma timer_delay_wraps:
  assumes "2147483648 \<le> d" and "d < 4294967296" and "lv \<le> 5"
  shows "timer_delay lv d = 0"
proof -
  from assms(2) have "int d mod 4294967296 = int d" by simp
  with assms show ?thesis by (auto simp: timer_delay_def to_int32_def Let_def)
qed

lemma check_time_mono: "i \<le> j \<Longrightarrow> check_time lv retry i \<le> check_time lv retry j"
  by (rule lift_Suc_mono_le) simp_all

lemma check_time_grows: "4 * m \<le> check_time lv retry (6 + m)"
proof (induction m)
  case 0
  then show ?case by simp
next
  case (Suc m)
  have "4 \<le> timer_delay (lv + (6 + m)) retry"
    by (rule timer_delay_ge) simp
  moreover have "check_time lv retry (6 + Suc m)
      = check_time lv retry (6 + m) + timer_delay (lv + (6 + m)) retry"
    by (simp only: add_Suc_right check_time.simps)
  ultimately have "4 * m + 4 \<le> check_time lv retry (6 + Suc m)"
    using Suc by linarith
  then show ?case by simp
qed

lemma check_time_plain:
  assumes "4 \<le> retry" and "retry < 2147483648"
  shows "check_time lv retry k = k * retry"
  using assms by (induction k) (simp_all add: timer_delay_plain)

subsection \<open>Promises\<close>

lemma resolve_settled: "q \<noteq> Pending \<Longrightarrow> resolve v q = q"
  by (cases q) simp_all

lemma reject_settled: "q \<noteq> Pending \<Longrightarrow> reject e q = q"
  by (cases q) simp_all

lemma resolve_not_pending: "resolve v q \<noteq> Pending"
  by (cases q) simp_all

lemma reject_not_pending: "reject e q \<noteq> Pending"
  by (cases q) simp_all

lemma run_add:
  "run world timeout retry (n + m) p = run world timeout retry m (run world timeout retry n p)"
  by (induction n arbitrary: p) simp_all

lemma run_Suc_end:
  "run world timeout retry (Suc n) p = fire world timeout retry (run world timeout retry n p)"
  using run_add [of world timeout retry n 1 p] by simp

subsection \<open>A settled promise stays as it is\<close>

lemma checkLoaded_settled:
  assumes "promise p \<noteq> Pending"
  shows "promise (checkLoaded world timeout retry p) = promise p
       \<and> settled_at (checkLoaded world timeout retry p) = settled_at p"
  using assms
  by (auto simp: polling_defs resolve_settled reject_settled
      split: option.splits outcome.splits prod.splits)

lemma timeout_callback_settled:
  assumes "promise p \<noteq> Pending"
  shows "promise (timeout_callback p) = promise p \<and> settled_at (timeout_callback p) = settled_at p"
  using assms
  by (auto simp: polling_defs reject_settled split: option.splits)

lemma fire_settled:
  assumes "promise p \<noteq> Pending"
  shows "promise (fire world timeout retry p) = promise p
       \<and> settled_at (fire world timeout retry p) = settled_at p"
proof (cases "next_timer (timers p)")
  case None
  then show ?thesis by (simp add: fire_def)
next
  case (Some t)
  let ?p1 = "p\<lparr>now := max (now p) (due t),
               nesting := level t,
               timers := filter (\<lambda>u. timer_id u \<noteq> timer_id t) (timers p)\<rparr>"
  have p1: "promise ?p1 \<noteq> Pending" "promise ?p1 = promise p" "settled_at ?p1 = settled_at p"
    using assms by simp_all
  show ?thesis
  proof (cases "callback t")
    case TimeoutCallback
    then show ?thesis
      using Some timeout_callback_settled [OF p1(1)] p1(2,3) by (simp add: fire_def Let_def)
  next
    case PollCallback
    then show ?thesis
      using Some checkLoaded_settled [OF p1(1), of world timeout retry] p1(2,3)
      by (simp add: fire_def Let_def)
  qed
qed

lemma run_settled:
  "promise p \<noteq> Pending
   \<Longrightarrow> promise (run world timeout retry n p) = promise p
     \<and> settled_at (run world timeout retry n p) = settled_at p"
proof (induction n arbitrary: p)
  case 0
  then show ?case by simp
next
  case (Suc n)
  from fire_settled [OF Suc.prems, of world timeout retry]
  have f: "promise (fire world timeout retry p) = promise p"
      "settled_at (fire world timeout retry p) = settled_at p"
    by simp_all
  with Suc.prems have "promise (fire world timeout retry p) \<noteq> Pending" by simp
  from Suc.IH [OF this] f show ?case by simp
qed

lemma settled_from_then_on:
  assumes "promise (run world timeout retry n p) = r" and "r \<noteq> Pending"
    and "settled_at (run world timeout retry n p) = t" and "n \<le> m"
  shows "promise (run world timeout retry m p) = r \<and> settled_at (run world timeout retry m p) = t"
proof -
  from \<open>n \<le> m\<close> obtain d where m: "m = n + d"
    using le_Suc_ex by blast
  have "promise (run world timeout retry n p) \<noteq> Pending"
    using assms(1,2) by simp
  from run_settled [OF this, of world timeout retry d] assms(1,3) show ?thesis
    by (simp add: m run_add)
qed

subsection \<open>The invariant of a run\<close>

lemma polling_inv_start: "polling_inv (getResponsePromise lv world timeout retry)"
  by (auto simp: polling_inv_def getResponsePromise_def initial_polling_def polling_defs
      resolve_not_pending reject_not_pending
      split: option.splits outcome.splits)

lemma polling_inv_timeout_callback:
  assumes "polling_inv p" and "timers p \<noteq> [] \<longrightarrow> (\<exists>i. timeoutId p = Some i \<and> 0 < i)"
  shows "polling_inv (timeout_callback p)"
  using assms
  by (cases "promise p")
    (auto simp: polling_inv_def polling_defs split: option.splits)

lemma polling_inv_checkLoaded:
  assumes "polling_inv p" and "\<exists>i. timeoutId p = Some i \<and> 0 < i"
  shows "polling_inv (checkLoaded world timeout retry p)"
  using assms
  by (cases "promise p")
    (auto simp: polling_inv_def polling_defs split: option.splits outcome.splits)

lemma next_timer_Some: "next_timer ts = Some t \<Longrightarrow> ts \<noteq> [] \<and> t \<in> set ts"
  by (induction ts arbitrary: t) (auto split: option.splits if_splits)

lemma polling_inv_fire:
  assumes "polling_inv p"
  shows "polling_inv (fire world timeout retry p)"
proof (cases "next_timer (timers p)")
  case None
  then show ?thesis using assms by (simp add: fire_def)
next
  case (Some t)
  let ?p1 = "p\<lparr>now := max (now p) (due t),
               nesting := level t,
               timers := filter (\<lambda>u. timer_id u \<noteq> timer_id t) (timers p)\<rparr>"
  from next_timer_Some [OF Some] have ne: "timers p \<noteq> []" by simp
  with assms have tid: "\<exists>i. timeoutId p = Some i \<and> 0 < i"
    by (simp add: polling_inv_def)
  have inv1: "polling_inv ?p1"
    using assms ne by (auto simp: polling_inv_def)
  have tid1: "\<exists>i. timeoutId ?p1 = Some i \<and> 0 < i"
    using tid by simp
  show ?thesis
  proof (cases "callback t")
    case TimeoutCallback
    then show ?thesis
      using Some polling_inv_timeout_callback [OF inv1] tid1 by (simp add: fire_def Let_def)
  next
    case PollCallback
    then show ?thesis
      using Some polling_inv_checkLoaded [OF inv1 tid1, of world timeout retry]
      by (simp add: fire_def Let_def)
  qed
qed

lemma polling_inv_run:
  "polling_inv p \<Longrightarrow> polling_inv (run world timeout retry n p)"
  by (induction n arbitrary: p) (simp_all add: polling_inv_fire)

subsection \<open>From one poll to the next\<close>

lemma token_result_not_pending:
  "solved_and_present snap \<Longrightarrow> token_result snap \<noteq> Pending"
  by (cases "snap_widgetId snap")
    (auto simp: solved_and_present_def token_result_def split: option.splits outcome.splits)

lemma start_unsolved:
  assumes "\<not> solved_and_present (world 0)"
  shows "between_polls lv timeout retry 1 False (getResponsePromise lv world timeout retry)"
  using assms
  by (simp add: between_polls_def getResponsePromise_def initial_polling_def polling_defs
      timeout_due_def)

lemma start_solved:
  assumes "solved_and_present (world 0)"
  shows "promise (getResponsePromise lv world timeout retry) = token_result (world 0)
       \<and> settled_at (getResponsePromise lv world timeout retry) = Some 0
       \<and> checks (getResponsePromise lv world timeout retry) = [0]
       \<and> timers (getResponsePromise lv world timeout retry) = []"
  using assms
  by (cases "snap_widgetId (world 0)")
    (auto simp: getResponsePromise_def initial_polling_def polling_defs token_result_def
      solved_and_present_def split: option.splits outcome.splits)

lemma fire_poll_pending:
  assumes "between_polls lv timeout retry k False p" and "0 < k" and "check_time lv retry k < timeout_due lv timeout"
  shows "fire world timeout retry p
       = checkLoaded world timeout retry
           (p\<lparr>now := check_time lv retry k, nesting := lv + k,
              timers := [Timer 1 (timeout_due lv timeout) (Suc lv) TimeoutCallback]\<rparr>)"
  using assms
  by (simp add: between_polls_def fire_def Let_def max_def)

lemma fire_poll_fired:
  assumes "between_polls lv timeout retry k True p"
  shows "fire world timeout retry p
       = checkLoaded world timeout retry
           (p\<lparr>now := check_time lv retry k, nesting := lv + k, timers := []\<rparr>)"
  using assms
  by (simp add: between_polls_def fire_def Let_def max_def)

lemma timeout_fires:
  assumes "between_polls lv timeout retry k False p" and "0 < k" and "timeout_due lv timeout \<le> check_time lv retry k"
  shows "between_polls lv timeout retry k True (fire world timeout retry p)"
  using assms
  by (auto simp: between_polls_def fire_def polling_defs max_def)

lemma poll_unsolved_pending:
  assumes "between_polls lv timeout retry k False p" and "0 < k" and "check_time lv retry k < timeout_due lv timeout"
    and "\<not> solved_and_present (world (check_time lv retry k))"
  shows "between_polls lv timeout retry (Suc k) False (fire world timeout retry p)"
  unfolding fire_poll_pending [OF assms(1,2,3)]
  using assms
  by (simp add: between_polls_def polling_defs)

lemma poll_unsolved_fired:
  assumes "between_polls lv timeout retry k True p"
    and "\<not> solved_and_present (world (check_time lv retry k))"
  shows "between_polls lv timeout retry (Suc k) True (fire world timeout retry p)"
  unfolding fire_poll_fired [OF assms(1)]
  using assms
  by (simp add: between_polls_def polling_defs)

lemma poll_solved_pending:
  assumes "between_polls lv timeout retry k False p" and "0 < k" and "check_time lv retry k < timeout_due lv timeout"
    and "solved_and_present (world (check_time lv retry k))"
  shows "promise (fire world timeout retry p) = token_result (world (check_time lv retry k))
       \<and> settled_at (fire world timeout retry p) = Some (check_time lv retry k)"
  unfolding fire_poll_pending [OF assms(1,2,3)]
  using assms
  by (cases "snap_widgetId (world (check_time lv retry k))")
    (auto simp: between_polls_def polling_defs token_result_def solved_and_present_def
      split: option.splits outcome.splits)

lemma poll_checks:
  assumes "between_polls lv timeout retry k fired p" and "0 < k" and "fired \<or> check_time lv retry k < timeout_due lv timeout"
  shows "checks (fire world timeout retry p) = map (check_time lv retry) [0..<Suc k]"
proof (cases fired)
  case True
  with assms(1) have b: "between_polls lv timeout retry k True p" by simp
  show ?thesis
    unfolding fire_poll_fired [OF b]
    using b by (auto simp: between_polls_def polling_defs split: option.splits outcome.splits)
next
  case False
  with assms have b: "between_polls lv timeout retry k False p" and lt: "check_time lv retry k < timeout_due lv timeout"
    by simp_all
  show ?thesis
    unfolding fire_poll_pending [OF b assms(2) lt]
    using b by (auto simp: between_polls_def polling_defs split: option.splits outcome.splits)
qed

subsection \<open>The course of a run\<close>

lemma reach_poll:
  assumes "0 < k" and "\<forall>i<k. \<not> solved_and_present (world (check_time lv retry i))"
  shows "\<exists>n fired. between_polls lv timeout retry k fired
           (run world timeout retry n (getResponsePromise lv world timeout retry))"
  using assms
proof (induction k)
  case 0
  then show ?case by simp
next
  case (Suc k)
  let ?P = "getResponsePromise lv world timeout retry"
  show ?case
  proof (cases "k = 0")
    case True
    from Suc.prems have "\<not> solved_and_present (world (check_time lv retry 0))" by blast
    then have "between_polls lv timeout retry (Suc 0) False (run world timeout retry 0 ?P)"
      using start_unsolved [of world lv timeout retry] by simp
    with True show ?thesis by blast
  next
    case False
    then have k: "0 < k" by simp
    from Suc.prems have "\<forall>i<k. \<not> solved_and_present (world (check_time lv retry i))" by simp
    from Suc.IH [OF k this] obtain n fired
      where b: "between_polls lv timeout retry k fired (run world timeout retry n ?P)"
      by blast
    from Suc.prems have u: "\<not> solved_and_present (world (check_time lv retry k))" by simp
    show ?thesis
    proof (cases fired)
      case True
      with b have "between_polls lv timeout retry k True (run world timeout retry n ?P)" by simp
      from poll_unsolved_fired [where world = world, OF this u]
      have "between_polls lv timeout retry (Suc k) True (run world timeout retry (Suc n) ?P)"
        by (simp only: run_Suc_end)
      then show ?thesis by blast
    next
      case False
      with b have bp: "between_polls lv timeout retry k False (run world timeout retry n ?P)" by simp
      show ?thesis
      proof (cases "check_time lv retry k < timeout_due lv timeout")
        case True
        from poll_unsolved_pending [where world = world, OF bp k True u]
        have "between_polls lv timeout retry (Suc k) False (run world timeout retry (Suc n) ?P)"
          by (simp only: run_Suc_end)
        then show ?thesis by blast
      next
        case False
        then have "timeout_due lv timeout \<le> check_time lv retry k" by simp
        from timeout_fires [OF bp k this, of world]
        have "between_polls lv timeout retry k True (run world timeout retry (Suc n) ?P)"
          by (simp only: run_Suc_end)
        from poll_unsolved_fired [where world = world, OF this u]
        have "between_polls lv timeout retry (Suc k) True (run world timeout retry (Suc (Suc n)) ?P)"
          by (simp only: run_Suc_end)
        then show ?thesis by blast
      qed
    qed
  qed
qed

lemma first_solved_settles:
  assumes "solved_and_present (world (check_time lv retry j))"
    and "\<forall>i<j. \<not> solved_and_present (world (check_time lv retry i))"
    and "j = 0 \<or> check_time lv retry j < timeout_due lv timeout"
  shows "\<exists>n. promise (run world timeout retry n (getResponsePromise lv world timeout retry))
             = token_result (world (check_time lv retry j))
           \<and> settled_at (run world timeout retry n (getResponsePromise lv world timeout retry))
             = Some (check_time lv retry j)"
proof (cases "j = 0")
  case True
  with assms(1) have "solved_and_present (world 0)" by simp
  with start_solved [of world lv timeout retry] True
  have "promise (run world timeout retry 0 (getResponsePromise lv world timeout retry))
             = token_result (world (check_time lv retry j))
           \<and> settled_at (run world timeout retry 0 (getResponsePromise lv world timeout retry))
             = Some (check_time lv retry j)"
    by simp
  then show ?thesis by blast
next
  case False
  let ?P = "getResponsePromise lv world timeout retry"
  from False have j: "0 < j" by simp
  from False assms(3) have lt: "check_time lv retry j < timeout_due lv timeout" by simp
  from reach_poll [OF j assms(2), of timeout] obtain n fired
    where b: "between_polls lv timeout retry j fired (run world timeout retry n ?P)"
    by blast
  have "\<not> fired"
  proof
    assume fired
    with b have "timeout_due lv timeout \<le> check_time lv retry j" by (simp add: between_polls_def)
    with lt show False by simp
  qed
  with b have "between_polls lv timeout retry j False (run world timeout retry n ?P)" by simp
  from poll_solved_pending [where world = world, OF this j lt assms(1)]
  have "promise (run world timeout retry (Suc n) ?P) = token_result (world (check_time lv retry j))
      \<and> settled_at (run world timeout retry (Suc n) ?P) = Some (check_time lv retry j)"
    by (simp only: run_Suc_end)
  then show ?thesis by blast
qed

lemma first_poll_at_timeout:
  "\<exists>k. 0 < k \<and> timeout_due lv timeout \<le> check_time lv retry k
       \<and> (\<forall>i<k. i = 0 \<or> check_time lv retry i < timeout_due lv timeout)"
proof -
  let ?Q = "\<lambda>k. 0 < k \<and> timeout_due lv timeout \<le> check_time lv retry k"
  define K where "K = (LEAST k. ?Q k)"
  have "timeout_due lv timeout \<le> 4 * timeout_due lv timeout" by simp
  also have "\<dots> \<le> check_time lv retry (6 + timeout_due lv timeout)"
    by (rule check_time_grows)
  finally have ex: "?Q (6 + timeout_due lv timeout)" by simp
  then have QK: "?Q K"
    unfolding K_def by (rule LeastI)
  have "\<forall>i<K. i = 0 \<or> check_time lv retry i < timeout_due lv timeout"
  proof (intro allI impI)
    fix i
    assume "i < K"
    then have "\<not> ?Q i"
      unfolding K_def by (rule not_less_Least)
    then show "i = 0 \<or> check_time lv retry i < timeout_due lv timeout" by auto
  qed
  with QK show ?thesis by blast
qed

lemma never_solved_times_out:
  assumes "\<forall>j. j = 0 \<or> check_time lv retry j < timeout_due lv timeout \<longrightarrow> \<not> solved_and_present (world (check_time lv retry j))"
  shows "\<exists>n. promise (run world timeout retry n (getResponsePromise lv world timeout retry))
             = Rejected ''Timeout''
           \<and> settled_at (run world timeout retry n (getResponsePromise lv world timeout retry))
             = Some (timeout_due lv timeout)"
proof -
  let ?P = "getResponsePromise lv world timeout retry"
  from first_poll_at_timeout [of lv timeout retry] obtain k
    where k: "0 < k" and ge: "timeout_due lv timeout \<le> check_time lv retry k"
      and below: "\<forall>i<k. i = 0 \<or> check_time lv retry i < timeout_due lv timeout"
    by blast
  from below assms have "\<forall>i<k. \<not> solved_and_present (world (check_time lv retry i))" by blast
  from reach_poll [OF k this, of timeout] obtain n fired
    where b: "between_polls lv timeout retry k fired (run world timeout retry n ?P)"
    by blast
  have "\<exists>n. between_polls lv timeout retry k True (run world timeout retry n ?P)"
  proof (cases fired)
    case True
    with b have "between_polls lv timeout retry k True (run world timeout retry n ?P)" by simp
    then show ?thesis by blast
  next
    case False
    with b have "between_polls lv timeout retry k False (run world timeout retry n ?P)" by simp
    from timeout_fires [OF this k ge, of world]
    have "between_polls lv timeout retry k True (run world timeout retry (Suc n) ?P)"
      by (simp only: run_Suc_end)
    then show ?thesis by blast
  qed
  then obtain n' where "between_polls lv timeout retry k True (run world timeout retry n' ?P)"
    by blast
  then have "promise (run world timeout retry n' ?P) = Rejected ''Timeout''
      \<and> settled_at (run world timeout retry n' ?P) = Some (timeout_due lv timeout)"
    by (simp add: between_polls_def)
  then show ?thesis by blast
qed

lemma checks_every_retry:
  assumes "\<forall>i<k. \<not> solved_and_present (world (check_time lv retry i))"
  shows "\<exists>n. checks (run world timeout retry n (getResponsePromise lv world timeout retry))
           = map (check_time lv retry) [0..<Suc k]"
proof (cases "k = 0")
  case True
  have "checks (run world timeout retry 0 (getResponsePromise lv world timeout retry)) = [0]"
    by (auto simp: getResponsePromise_def initial_polling_def polling_defs
        split: option.splits outcome.splits)
  with True have "checks (run world timeout retry 0 (getResponsePromise lv world timeout retry))
           = map (check_time lv retry) [0..<Suc k]"
    by simp
  then show ?thesis by blast
next
  case False
  let ?P = "getResponsePromise lv world timeout retry"
  from False have k: "0 < k" by simp
  from reach_poll [OF k assms, of timeout] obtain n fired
    where b: "between_polls lv timeout retry k fired (run world timeout retry n ?P)"
    by blast
  have "\<exists>n f. between_polls lv timeout retry k f (run world timeout retry n ?P)
      \<and> (f \<or> check_time lv retry k < timeout_due lv timeout)"
  proof (cases "fired \<or> check_time lv retry k < timeout_due lv timeout")
    case True
    with b show ?thesis by blast
  next
    case False
    then have nf: "\<not> fired" and ge: "timeout_due lv timeout \<le> check_time lv retry k" by simp_all
    from b nf have "between_polls lv timeout retry k False (run world timeout retry n ?P)" by simp
    from timeout_fires [OF this k ge, of world]
    have "between_polls lv timeout retry k True (run world timeout retry (Suc n) ?P)"
      by (simp only: run_Suc_end)
    then show ?thesis by blast
  qed
  then obtain n' f where b': "between_polls lv timeout retry k f (run world timeout retry n' ?P)"
    and c: "f \<or> check_time lv retry k < timeout_due lv timeout"
    by blast
  from poll_checks [OF b' k c, of world]
  have "checks (run world timeout retry (Suc n') ?P) = map (check_time lv retry) [0..<Suc k]"
    by (simp only: run_Suc_end)
  then show ?thesis by blast
qed

text \<open>
  Nothing stops the checks but a check that finds the widget solved: if none ever does,
  a poll timer is pending in every state of the run, before and after the timeout has
  rejected the promise.
\<close>

lemma polling_goes_on:
  assumes "\<forall>t. \<not> solved_and_present (world t)"
  shows "\<exists>k fired. 0 < k \<and> between_polls lv timeout retry k fired
           (run world timeout retry n (getResponsePromise lv world timeout retry))"
proof (induction n)
  case 0
  from assms have "\<not> solved_and_present (world 0)" by simp
  with start_unsolved [of world lv timeout retry]
  have "between_polls lv timeout retry (Suc 0) False
      (run world timeout retry 0 (getResponsePromise lv world timeout retry))"
    by simp
  then show ?case by blast
next
  case (Suc n)
  let ?P = "getResponsePromise lv world timeout retry"
  from Suc.IH obtain k fired where k: "0 < k"
    and b: "between_polls lv timeout retry k fired (run world timeout retry n ?P)"
    by blast
  from assms have u: "\<not> solved_and_present (world (check_time lv retry k))" by simp
  show ?case
  proof (cases fired)
    case True
    with b have "between_polls lv timeout retry k True (run world timeout retry n ?P)" by simp
    from poll_unsolved_fired [where world = world, OF this u]
    have "between_polls lv timeout retry (Suc k) True (run world timeout retry (Suc n) ?P)"
      by (simp only: run_Suc_end)
    then show ?thesis by blast
  next
    case False
    with b have bp: "between_polls lv timeout retry k False (run world timeout retry n ?P)" by simp
    show ?thesis
    proof (cases "check_time lv retry k < timeout_due lv timeout")
      case True
      from poll_unsolved_pending [where world = world, OF bp k True u]
      have "between_polls lv timeout retry (Suc k) False (run world timeout retry (Suc n) ?P)"
        by (simp only: run_Suc_end)
      then show ?thesis by blast
    next
      case False
      then have "timeout_due lv timeout \<le> check_time lv retry k" by simp
      from timeout_fires [OF bp k this, of world]
      have "between_polls lv timeout retry k True (run world timeout retry (Suc n) ?P)"
        by (simp only: run_Suc_end)
      with k show ?thesis by blast
    qed
  qed
qed

lemma poll_timer_always_pending:
  assumes "\<forall>t. \<not> solved_and_present (world t)"
  shows "timers (run world timeout retry n (getResponsePromise lv world timeout retry)) \<noteq> []"
proof -
  from polling_goes_on [OF assms, of lv timeout retry n] obtain k fired
    where "between_polls lv timeout retry k fired
           (run world timeout retry n (getResponsePromise lv world timeout retry))"
    by blast
  then show ?thesis
    by (cases fired) (auto simp: between_polls_def)
qed

subsection \<open>How the promise settles\<close>

lemma settles_withI:
  assumes "promise (run world timeout retry n (getResponsePromise lv world timeout retry)) = r"
    and "r \<noteq> Pending"
  shows "settles_with lv world timeout retry r"
proof -
  have "\<forall>m\<ge>n. promise_after lv world timeout retry m = r"
    using settled_from_then_on [OF assms(1,2) refl] by (simp add: promise_after_def)
  with assms(2) show ?thesis
    unfolding settles_with_def by blast
qed

lemma settles_with_unique:
  assumes "settles_with lv world timeout retry a" and "settles_with lv world timeout retry b"
  shows "a = b"
proof -
  from assms(1) obtain n where n: "\<forall>m\<ge>n. promise_after lv world timeout retry m = a"
    unfolding settles_with_def by blast
  from assms(2) obtain n' where n': "\<forall>m\<ge>n'. promise_after lv world timeout retry m = b"
    unfolding settles_with_def by blast
  from n have "promise_after lv world timeout retry (max n n') = a" by simp
  moreover from n' have "promise_after lv world timeout retry (max n n') = b" by simp
  ultimately show ?thesis by simp
qed

lemma mounted_solved:
  "mounted_with_id world \<Longrightarrow> solved_and_present (world t) = snap_widgetSolved (world t)"
  by (simp add: mounted_with_id_def solved_and_present_def)

lemma first_solved_settles_with:
  assumes "solved_and_present (world (check_time lv retry j))"
    and "\<forall>i<j. \<not> solved_and_present (world (check_time lv retry i))"
    and "j = 0 \<or> check_time lv retry j < timeout_due lv timeout"
  shows "settles_with lv world timeout retry (token_result (world (check_time lv retry j)))"
proof -
  from first_solved_settles [OF assms] obtain n
    where "promise (run world timeout retry n (getResponsePromise lv world timeout retry))
             = token_result (world (check_time lv retry j))"
    by blast
  from settles_withI [OF this token_result_not_pending [OF assms(1)]] show ?thesis .
qed

lemma never_solved_settles_with:
  assumes "\<forall>j. j = 0 \<or> check_time lv retry j < timeout_due lv timeout \<longrightarrow> \<not> solved_and_present (world (check_time lv retry j))"
  shows "settles_with lv world timeout retry (Rejected ''Timeout'')"
proof -
  from never_solved_times_out [OF assms] obtain n
    where "promise (run world timeout retry n (getResponsePromise lv world timeout retry))
             = Rejected ''Timeout''"
    by blast
  from settles_withI [OF this] show ?thesis by simp
qed

lemma plain_times:
  "check_time 0 300 j = j * 300" "check_time 0 100 j = j * 100"
  "timeout_due 0 1000 = 1000" "timeout_due 0 2147483648 = 0" "timeout_due 0 10 = 10"
  "timeout_due 0 600 = 600"
  by (simp_all add: check_time_plain timeout_due_def timer_delay_plain timer_delay_wraps)

text \<open>
  C2, as the claim states it, fails. With a timeout of 1000 ms and checks every 300 ms,
  on an instance that holds a widget id throughout, let the solved flag become true
  950 ms after the call, the external \<open>getResponse\<close> returning the token \<open>XYZ\<close>. The
  flag is true before the timeout has elapsed, and the check made at 1200 ms finds it
  true and retrieves the token; yet the promise is rejected with the timeout error and
  never fulfilled, the timer having fired at 1000 ms.
\<close>

theorem solved_unseen_before_timeout_counterexample:
  "mounted_with_id (solved_from 950 working_api)
   \<and> snap_widgetSolved (solved_from 950 working_api 950) \<and> (950 :: nat) < 1000
   \<and> token_result (solved_from 950 working_api 950) = Fulfilled ''XYZ''
   \<and> checks (run (solved_from 950 working_api) 1000 300 5
        (getResponsePromise 0 (solved_from 950 working_api) 1000 300)) = [0, 300, 600, 900, 1200]
   \<and> snap_widgetSolved (solved_from 950 working_api 1200)
   \<and> token_result (solved_from 950 working_api 1200) = Fulfilled ''XYZ''
   \<and> settles_with 0 (solved_from 950 working_api) 1000 300 (Rejected ''Timeout'')
   \<and> \<not> settles_with 0 (solved_from 950 working_api) 1000 300 (Fulfilled ''XYZ'')"
proof -
  let ?w = "solved_from 950 working_api"
  have m: "mounted_with_id ?w"
    by (simp add: mounted_with_id_def solved_from_def)
  have s: "snap_widgetSolved (?w 950) \<and> snap_widgetSolved (?w 1200)"
    by (simp add: solved_from_def)
  have t: "token_result (?w 950) = Fulfilled ''XYZ'' \<and> token_result (?w 1200) = Fulfilled ''XYZ''"
    by (simp add: token_result_def solved_from_def working_api_def)
  have c: "checks (run ?w 1000 300 5 (getResponsePromise 0 ?w 1000 300)) = [0, 300, 600, 900, 1200]"
    by code_simp
  have "\<forall>j. j = 0 \<or> check_time 0 300 j < timeout_due 0 1000 \<longrightarrow>
      \<not> solved_and_present (?w (check_time 0 300 j))"
    by (auto simp: plain_times solved_and_present_def solved_from_def)
  from never_solved_settles_with [OF this]
  have r: "settles_with 0 ?w 1000 300 (Rejected ''Timeout'')" .
  have "\<not> settles_with 0 ?w 1000 300 (Fulfilled ''XYZ'')"
  proof
    assume "settles_with 0 ?w 1000 300 (Fulfilled ''XYZ'')"
    from settles_with_unique [OF r this] show False by simp
  qed
  with m s t c r show ?thesis by simp
qed

text \<open>
  C2, amended. On an instance that holds a widget id throughout, the library being
  present, a call made from a task of any timer nesting level runs its checks at the
  call and then one poll delay after another for as long as they find the widget
  unsolved, also once the timeout has passed; for a \<open>retry\<close> from 4 to \<open>2^31 - 1\<close> that
  is every \<open>retry\<close> milliseconds, and for a \<open>timeout\<close> below \<open>2^31\<close>, in a call not
  nested more than five timers deep or with a \<open>timeout\<close> of 4 at least, the timeout
  timer is due \<open>timeout\<close> milliseconds after the call. If the first check to find the
  solved flag true is the one at the call, or one made before the timeout timer is due,
  the promise settles by what the external \<open>getResponse\<close> does at that check: fulfilled
  with the token if it returns a non-empty one, rejected with \<open>No response received\<close> if
  it returns none or an empty one, rejected with \<open>Failed to get response\<close> if it throws.
  If neither the check at the call nor any check made before the timeout timer is due
  finds the flag true, the promise is rejected with \<open>Timeout\<close>.
\<close>

theorem getResponsePromise_outcomes:
  assumes "mounted_with_id world"
  shows "(\<forall>j ext wid.
            snap_widgetSolved (world (check_time lv retry j))
            \<and> (\<forall>i<j. \<not> snap_widgetSolved (world (check_time lv retry i)))
            \<and> (j = 0 \<or> check_time lv retry j < timeout_due lv timeout)
            \<and> optional_method (snap_turnstile (world (check_time lv retry j))) api_getResponse = Some ext
            \<and> snap_widgetId (world (check_time lv retry j)) = Some wid \<longrightarrow>
              (\<forall>tok. ext wid = Returns (Some tok) \<and> tok \<noteq> [] \<longrightarrow>
                  settles_with lv world timeout retry (Fulfilled tok))
            \<and> (ext wid = Returns None \<or> ext wid = Returns (Some []) \<longrightarrow>
                  settles_with lv world timeout retry (Rejected ''No response received''))
            \<and> ((\<exists>error. ext wid = Throws error) \<longrightarrow>
                  settles_with lv world timeout retry (Rejected ''Failed to get response'')))
       \<and> ((\<forall>j. j = 0 \<or> check_time lv retry j < timeout_due lv timeout \<longrightarrow>
                \<not> snap_widgetSolved (world (check_time lv retry j))) \<longrightarrow>
            settles_with lv world timeout retry (Rejected ''Timeout''))
       \<and> (\<forall>k. (\<forall>i<k. \<not> snap_widgetSolved (world (check_time lv retry i))) \<longrightarrow>
            (\<exists>n. checks (run world timeout retry n (getResponsePromise lv world timeout retry))
                  = map (check_time lv retry) [0..<Suc k]))
       \<and> (4 \<le> retry \<and> retry < 2147483648 \<longrightarrow> (\<forall>k. check_time lv retry k = k * retry))
       \<and> (timeout < 2147483648 \<and> (lv \<le> 5 \<or> 4 \<le> timeout) \<longrightarrow> timeout_due lv timeout = timeout)"
proof -
  note ms = mounted_solved [OF assms]
  have a: "\<forall>j ext wid.
            snap_widgetSolved (world (check_time lv retry j))
            \<and> (\<forall>i<j. \<not> snap_widgetSolved (world (check_time lv retry i)))
            \<and> (j = 0 \<or> check_time lv retry j < timeout_due lv timeout)
            \<and> optional_method (snap_turnstile (world (check_time lv retry j))) api_getResponse = Some ext
            \<and> snap_widgetId (world (check_time lv retry j)) = Some wid \<longrightarrow>
              (\<forall>tok. ext wid = Returns (Some tok) \<and> tok \<noteq> [] \<longrightarrow>
                  settles_with lv world timeout retry (Fulfilled tok))
            \<and> (ext wid = Returns None \<or> ext wid = Returns (Some []) \<longrightarrow>
                  settles_with lv world timeout retry (Rejected ''No response received''))
            \<and> ((\<exists>error. ext wid = Throws error) \<longrightarrow>
                  settles_with lv world timeout retry (Rejected ''Failed to get response''))"
  proof (intro allI impI)
    fix j ext wid
    assume h: "snap_widgetSolved (world (check_time lv retry j))
            \<and> (\<forall>i<j. \<not> snap_widgetSolved (world (check_time lv retry i)))
            \<and> (j = 0 \<or> check_time lv retry j < timeout_due lv timeout)
            \<and> optional_method (snap_turnstile (world (check_time lv retry j))) api_getResponse = Some ext
            \<and> snap_widgetId (world (check_time lv retry j)) = Some wid"
    then have s: "settles_with lv world timeout retry (token_result (world (check_time lv retry j)))"
      using first_solved_settles_with [of world lv retry j timeout] by (simp add: ms)
    from h have e: "optional_method (snap_turnstile (world (check_time lv retry j))) api_getResponse = Some ext"
      and w: "snap_widgetId (world (check_time lv retry j)) = Some wid"
      by simp_all
    have 1: "\<forall>tok. ext wid = Returns (Some tok) \<and> tok \<noteq> [] \<longrightarrow>
                  settles_with lv world timeout retry (Fulfilled tok)"
      using s e w by (auto simp: token_result_def)
    have 2: "ext wid = Returns None \<or> ext wid = Returns (Some []) \<longrightarrow>
                  settles_with lv world timeout retry (Rejected ''No response received'')"
      using s e w by (auto simp: token_result_def)
    have 3: "(\<exists>error. ext wid = Throws error) \<longrightarrow>
                  settles_with lv world timeout retry (Rejected ''Failed to get response'')"
      using s e w by (auto simp: token_result_def)
    from 1 2 3 show "(\<forall>tok. ext wid = Returns (Some tok) \<and> tok \<noteq> [] \<longrightarrow>
                  settles_with lv world timeout retry (Fulfilled tok))
            \<and> (ext wid = Returns None \<or> ext wid = Returns (Some []) \<longrightarrow>
                  settles_with lv world timeout retry (Rejected ''No response received''))
            \<and> ((\<exists>error. ext wid = Throws error) \<longrightarrow>
                  settles_with lv world timeout retry (Rejected ''Failed to get response''))"
      by blast
  qed
  have b: "(\<forall>j. j = 0 \<or> check_time lv retry j < timeout_due lv timeout \<longrightarrow>
                \<not> snap_widgetSolved (world (check_time lv retry j))) \<longrightarrow>
            settles_with lv world timeout retry (Rejected ''Timeout'')"
    using never_solved_settles_with [of lv retry timeout world] by (simp add: ms)
  have c: "\<forall>k. (\<forall>i<k. \<not> snap_widgetSolved (world (check_time lv retry i))) \<longrightarrow>
            (\<exists>n. checks (run world timeout retry n (getResponsePromise lv world timeout retry))
                  = map (check_time lv retry) [0..<Suc k])"
    using checks_every_retry [of _ world lv retry timeout] by (simp add: ms)
  have d: "4 \<le> retry \<and> retry < 2147483648 \<longrightarrow> (\<forall>k. check_time lv retry k = k * retry)"
    by (simp add: check_time_plain)
  have e: "timeout < 2147483648 \<and> (lv \<le> 5 \<or> 4 \<le> timeout) \<longrightarrow> timeout_due lv timeout = timeout"
    by (auto simp: timeout_due_def timer_delay_plain)
  from a b c d e show ?thesis by blast
qed

theorem getResponsePromise_outcomes_witness:
  "mounted_with_id (solved_from 550 working_api)
   \<and> settles_with 0 (solved_from 550 working_api) 1000 300 (Fulfilled ''XYZ'')
   \<and> mounted_with_id (solved_from 200 tokenless_api)
   \<and> settles_with 0 (solved_from 200 tokenless_api) 1000 100 (Rejected ''No response received'')
   \<and> mounted_with_id (solved_from 0 throwing_api)
   \<and> settles_with 0 (solved_from 0 throwing_api) 1000 100 (Rejected ''Failed to get response'')
   \<and> mounted_with_id never_solved
   \<and> settles_with 0 never_solved 1000 300 (Rejected ''Timeout'')
   \<and> settles_with 0 never_solved 10 0 (Rejected ''Timeout'')
   \<and> settles_with 0 (solved_from 100 working_api) 2147483648 300 (Rejected ''Timeout'')
   \<and> snap_widgetSolved (solved_from 600 working_api (check_time 0 300 2))
   \<and> check_time 0 300 2 = timeout_due 0 600
   \<and> settles_with 0 (solved_from 600 working_api) 600 300 (Rejected ''Timeout'')
   \<and> (\<exists>n. checks (run never_solved 1000 300 n (getResponsePromise 0 never_solved 1000 300))
          = [0, 300, 600, 900, 1200, 1500])"
proof -
  have m: "mounted_with_id (solved_from 550 working_api)"
      "mounted_with_id (solved_from 200 tokenless_api)"
      "mounted_with_id (solved_from 0 throwing_api)"
      "mounted_with_id never_solved"
      "mounted_with_id (solved_from 100 working_api)"
      "mounted_with_id (solved_from 600 working_api)"
    by (simp_all add: mounted_with_id_def solved_from_def never_solved_def)
  have f: "snap_widgetSolved (solved_from 550 working_api (check_time 0 300 2))
      \<and> (\<forall>i<2. \<not> snap_widgetSolved (solved_from 550 working_api (check_time 0 300 i)))
      \<and> (2 = (0::nat) \<or> check_time 0 300 2 < timeout_due 0 1000)
      \<and> optional_method (snap_turnstile (solved_from 550 working_api (check_time 0 300 2))) api_getResponse
          = Some (\<lambda>wid. Returns (Some ''XYZ''))
      \<and> snap_widgetId (solved_from 550 working_api (check_time 0 300 2)) = Some ''widget-1''"
    by (auto simp: plain_times solved_from_def working_api_def)
  have 1: "settles_with 0 (solved_from 550 working_api) 1000 300 (Fulfilled ''XYZ'')"
    using getResponsePromise_outcomes [OF m(1), of 0 300 1000, THEN conjunct1, rule_format,
        of 2 "\<lambda>wid. Returns (Some ''XYZ'')" "''widget-1''", THEN conjunct1, rule_format, of "''XYZ''"] f
    by simp
  have g: "snap_widgetSolved (solved_from 200 tokenless_api (check_time 0 100 2))
      \<and> (\<forall>i<2. \<not> snap_widgetSolved (solved_from 200 tokenless_api (check_time 0 100 i)))
      \<and> (2 = (0::nat) \<or> check_time 0 100 2 < timeout_due 0 1000)
      \<and> optional_method (snap_turnstile (solved_from 200 tokenless_api (check_time 0 100 2))) api_getResponse
          = Some (\<lambda>wid. Returns None)
      \<and> snap_widgetId (solved_from 200 tokenless_api (check_time 0 100 2)) = Some ''widget-1''"
    by (auto simp: plain_times solved_from_def tokenless_api_def working_api_def)
  have 2: "settles_with 0 (solved_from 200 tokenless_api) 1000 100 (Rejected ''No response received'')"
    using getResponsePromise_outcomes [OF m(2), of 0 100 1000, THEN conjunct1, rule_format,
        of 2 "\<lambda>wid. Returns None" "''widget-1''", THEN conjunct2, THEN conjunct1] g
    by simp
  have h: "snap_widgetSolved (solved_from 0 throwing_api (check_time 0 100 0))
      \<and> optional_method (snap_turnstile (solved_from 0 throwing_api (check_time 0 100 0))) api_getResponse
          = Some (\<lambda>wid. Throws (External ''getResponse failed''))
      \<and> snap_widgetId (solved_from 0 throwing_api (check_time 0 100 0)) = Some ''widget-1''"
    by (auto simp: solved_from_def throwing_api_def)
  have 3: "settles_with 0 (solved_from 0 throwing_api) 1000 100 (Rejected ''Failed to get response'')"
    using getResponsePromise_outcomes [OF m(3), of 0 100 1000, THEN conjunct1, rule_format,
        of 0 "\<lambda>wid. Throws (External ''getResponse failed'')" "''widget-1''",
        THEN conjunct2, THEN conjunct2] h
    by simp
  have n: "\<forall>j. \<not> snap_widgetSolved (never_solved j)"
    by (simp add: never_solved_def)
  have 4: "settles_with 0 never_solved 1000 300 (Rejected ''Timeout'')"
    using getResponsePromise_outcomes [OF m(4), of 0 300 1000, THEN conjunct2, THEN conjunct1] n
    by simp
  have 5: "settles_with 0 never_solved 10 0 (Rejected ''Timeout'')"
    using getResponsePromise_outcomes [OF m(4), of 0 0 10, THEN conjunct2, THEN conjunct1] n
    by simp
  have w: "\<forall>j. j = 0 \<or> check_time 0 300 j < timeout_due 0 2147483648 \<longrightarrow>
      \<not> snap_widgetSolved (solved_from 100 working_api (check_time 0 300 j))"
    by (auto simp: plain_times solved_from_def)
  have 6: "settles_with 0 (solved_from 100 working_api) 2147483648 300 (Rejected ''Timeout'')"
    using getResponsePromise_outcomes [OF m(5), of 0 300 2147483648, THEN conjunct2, THEN conjunct1] w
    by blast
  have tie: "snap_widgetSolved (solved_from 600 working_api (check_time 0 300 2))
      \<and> check_time 0 300 2 = timeout_due 0 600"
    by (simp add: plain_times solved_from_def)
  have w': "\<forall>j. j = 0 \<or> check_time 0 300 j < timeout_due 0 600 \<longrightarrow>
      \<not> snap_widgetSolved (solved_from 600 working_api (check_time 0 300 j))"
    by (auto simp: plain_times solved_from_def)
  have 8: "settles_with 0 (solved_from 600 working_api) 600 300 (Rejected ''Timeout'')"
    using getResponsePromise_outcomes [OF m(6), of 0 300 600, THEN conjunct2, THEN conjunct1] w'
    by blast
  have "\<exists>n. checks (run never_solved 1000 300 n (getResponsePromise 0 never_solved 1000 300))
          = map (check_time 0 300) [0..<Suc 5]"
    using getResponsePromise_outcomes [OF m(4), of 0 300 1000, THEN conjunct2, THEN conjunct2,
        THEN conjunct1, rule_format, of 5] n
    by simp
  moreover have "map (check_time 0 300) [0..<Suc 5] = [0, 300, 600, 900, 1200, 1500 :: nat]"
    by code_simp
  ultimately have 7: "\<exists>n. checks (run never_solved 1000 300 n (getResponsePromise 0 never_solved 1000 300))
          = [0, 300, 600, 900, 1200, 1500]"
    by simp
  from m 1 2 3 4 5 6 7 8 tie show ?thesis by blast
qed

text \<open>
  C3, as the claim states it, fails in its time bound for a call made from a timer
  callback nested more than five levels deep: there the browser raises a delay below
  4 ms to 4 ms. With \<open>timeout = 0\<close> and \<open>retry = 0\<close> and a widget that is not solved,
  the promise is pending when the call returns and is rejected 4 ms after the call,
  later than \<open>timeout + retry\<close>.
\<close>

theorem nested_call_settles_late_counterexample:
  "promise (getResponsePromise 6 never_solved 0 0) = Pending
   \<and> promise (run never_solved 0 0 1 (getResponsePromise 6 never_solved 0 0)) = Rejected ''Timeout''
   \<and> settled_at (run never_solved 0 0 1 (getResponsePromise 6 never_solved 0 0)) = Some 4
   \<and> \<not> (\<exists>n t. t \<le> 0 + 0
          \<and> (\<forall>m\<ge>n. promise (run never_solved 0 0 m (getResponsePromise 6 never_solved 0 0)) \<noteq> Pending
                 \<and> settled_at (run never_solved 0 0 m (getResponsePromise 6 never_solved 0 0)) = Some t))"
proof -
  let ?P = "getResponsePromise 6 never_solved 0 0"
  have a: "promise ?P = Pending"
    by code_simp
  have b: "promise (run never_solved 0 0 1 ?P) = Rejected ''Timeout''"
    by code_simp
  have c: "settled_at (run never_solved 0 0 1 ?P) = Some 4"
    by code_simp
  have late: "\<forall>m\<ge>1. settled_at (run never_solved 0 0 m ?P) = Some 4"
    using settled_from_then_on [OF b _ c] by simp
  have d: "\<not> (\<exists>n t. t \<le> 0 + 0
          \<and> (\<forall>m\<ge>n. promise (run never_solved 0 0 m ?P) \<noteq> Pending
                 \<and> settled_at (run never_solved 0 0 m ?P) = Some t))"
  proof
    assume "\<exists>n t. t \<le> 0 + 0
          \<and> (\<forall>m\<ge>n. promise (run never_solved 0 0 m ?P) \<noteq> Pending
                 \<and> settled_at (run never_solved 0 0 m ?P) = Some t)"
    then obtain n t where t: "t \<le> 0 + 0"
      and all: "\<forall>m\<ge>n. settled_at (run never_solved 0 0 m ?P) = Some t"
      by blast
    from all have "settled_at (run never_solved 0 0 (max n 1) ?P) = Some t" by simp
    moreover from late have "settled_at (run never_solved 0 0 (max n 1) ?P) = Some 4" by simp
    ultimately have "t = 4" by simp
    with t show False by simp
  qed
  from a b c d show ?thesis by blast
qed

text \<open>
  C3, amended. In every state of a call's run at most one timeout timer has been
  created, however many checks were made; whenever the promise is settled, no timeout
  timer is pending; and the promise is settled for good no later than the timeout timer
  is due. That is within \<open>timeout + retry\<close> milliseconds of the call if the call is
  not made from a timer callback nested more than five levels deep, or if
  \<open>timeout + retry\<close> is 4 at least; in the remaining case it is within 4 ms.
\<close>

theorem one_timer_cleared_and_settled_in_time:
  "(\<forall>n. timeout_timers_created (run world timeout retry n (getResponsePromise lv world timeout retry)) \<le> 1)
   \<and> (\<forall>n. promise (run world timeout retry n (getResponsePromise lv world timeout retry)) \<noteq> Pending \<longrightarrow>
          (\<forall>t \<in> set (timers (run world timeout retry n (getResponsePromise lv world timeout retry))).
              callback t \<noteq> TimeoutCallback))
   \<and> (\<exists>n t. t \<le> timeout_due lv timeout
         \<and> (lv \<le> 5 \<or> 4 \<le> timeout + retry \<longrightarrow> t \<le> timeout + retry)
         \<and> t \<le> max (timeout + retry) 4
         \<and> (\<forall>m\<ge>n. promise (run world timeout retry m (getResponsePromise lv world timeout retry)) \<noteq> Pending
                \<and> settled_at (run world timeout retry m (getResponsePromise lv world timeout retry)) = Some t))"
proof -
  let ?P = "getResponsePromise lv world timeout retry"
  let ?T = "timeout_due lv timeout"
  have inv: "\<And>n. polling_inv (run world timeout retry n ?P)"
    by (rule polling_inv_run [OF polling_inv_start])
  have a: "\<forall>n. timeout_timers_created (run world timeout retry n ?P) \<le> 1"
  proof
    fix n
    from inv [of n] show "timeout_timers_created (run world timeout retry n ?P) \<le> 1"
      by (simp add: polling_inv_def split: if_splits)
  qed
  have b: "\<forall>n. promise (run world timeout retry n ?P) \<noteq> Pending \<longrightarrow>
          (\<forall>t \<in> set (timers (run world timeout retry n ?P)). callback t \<noteq> TimeoutCallback)"
  proof (intro allI impI ballI)
    fix n t
    assume "promise (run world timeout retry n ?P) \<noteq> Pending"
      and "t \<in> set (timers (run world timeout retry n ?P))"
    with inv [of n] show "callback t \<noteq> TimeoutCallback"
      unfolding polling_inv_def by blast
  qed
  have "\<exists>n t q. t \<le> ?T \<and> q \<noteq> Pending \<and> promise (run world timeout retry n ?P) = q
      \<and> settled_at (run world timeout retry n ?P) = Some t"
  proof (cases "\<exists>j. (j = 0 \<or> check_time lv retry j < ?T)
      \<and> solved_and_present (world (check_time lv retry j))")
    case True
    define Q where "Q = (\<lambda>j. (j = 0 \<or> check_time lv retry j < ?T)
      \<and> solved_and_present (world (check_time lv retry j)))"
    from True have "\<exists>j. Q j" by (simp add: Q_def)
    then obtain j where j: "Q j" and least: "\<forall>i<j. \<not> Q i"
      using exists_least_iff [of Q] by blast
    have below: "\<forall>i<j. \<not> solved_and_present (world (check_time lv retry i))"
    proof (intro allI impI)
      fix i
      assume ij: "i < j"
      with least have nq: "\<not> Q i" by simp
      from ij j have "j \<noteq> 0" by simp
      with j have "check_time lv retry j < ?T" by (simp add: Q_def)
      moreover from ij have "check_time lv retry i \<le> check_time lv retry j"
        by (intro check_time_mono) simp
      ultimately have "check_time lv retry i < ?T" by (rule order.strict_trans1 [rotated])
      with nq show "\<not> solved_and_present (world (check_time lv retry i))" by (simp add: Q_def)
    qed
    from j have s: "solved_and_present (world (check_time lv retry j))"
      and w: "j = 0 \<or> check_time lv retry j < ?T"
      by (simp_all add: Q_def)
    from first_solved_settles [OF s below w] obtain n
      where "promise (run world timeout retry n ?P) = token_result (world (check_time lv retry j))
           \<and> settled_at (run world timeout retry n ?P) = Some (check_time lv retry j)"
      by blast
    moreover from w have "check_time lv retry j \<le> ?T" by auto
    ultimately show ?thesis
      using token_result_not_pending [OF s] by blast
  next
    case False
    then have "\<forall>j. j = 0 \<or> check_time lv retry j < ?T \<longrightarrow>
        \<not> solved_and_present (world (check_time lv retry j))"
      by blast
    from never_solved_times_out [OF this] show ?thesis by blast
  qed
  then obtain n t q where t: "t \<le> ?T" and q: "q \<noteq> Pending"
    and p: "promise (run world timeout retry n ?P) = q"
    and s: "settled_at (run world timeout retry n ?P) = Some t"
    by blast
  have stay: "\<forall>m\<ge>n. promise (run world timeout retry m ?P) \<noteq> Pending
                \<and> settled_at (run world timeout retry m ?P) = Some t"
    using settled_from_then_on [OF p q s] q by simp
  have T4: "?T \<le> max timeout 4"
    unfolding timeout_due_def by (rule timer_delay_le_max)
  have T5: "lv \<le> 5 \<longrightarrow> ?T \<le> timeout"
    unfolding timeout_due_def by (simp add: timer_delay_le)
  have b1: "lv \<le> 5 \<or> 4 \<le> timeout + retry \<longrightarrow> t \<le> timeout + retry"
    using t T4 T5 by auto
  have b2: "t \<le> max (timeout + retry) 4"
    using t T4 by auto
  from t b1 b2 stay
  have c: "\<exists>n t. t \<le> ?T
         \<and> (lv \<le> 5 \<or> 4 \<le> timeout + retry \<longrightarrow> t \<le> timeout + retry)
         \<and> t \<le> max (timeout + retry) 4
         \<and> (\<forall>m\<ge>n. promise (run world timeout retry m ?P) \<noteq> Pending
                \<and> settled_at (run world timeout retry m ?P) = Some t)"
    by blast
  from a b c show ?thesis by blast
qed

theorem one_timer_cleared_and_settled_in_time_witness:
  "timeout_timers_created (run never_solved 1000 300 6 (getResponsePromise 0 never_solved 1000 300)) \<le> 1
   \<and> promise (run never_solved 1000 300 6 (getResponsePromise 0 never_solved 1000 300)) = Rejected ''Timeout''
   \<and> timers (run never_solved 1000 300 6 (getResponsePromise 0 never_solved 1000 300))
       = [Timer 7 1800 6 PollCallback]
   \<and> checks (run never_solved 1000 300 6 (getResponsePromise 0 never_solved 1000 300))
       = [0, 300, 600, 900, 1200, 1500]
   \<and> (\<exists>n t. t \<le> 1000 + 300
         \<and> (\<forall>m\<ge>n. promise (run never_solved 1000 300 m (getResponsePromise 0 never_solved 1000 300)) \<noteq> Pending
                \<and> settled_at (run never_solved 1000 300 m (getResponsePromise 0 never_solved 1000 300)) = Some t))
   \<and> settled_at (run never_solved 10 0 9 (getResponsePromise 0 never_solved 10 0)) = Some 10
   \<and> checks (run never_solved 10 0 9 (getResponsePromise 0 never_solved 10 0))
       = [0, 0, 0, 0, 0, 0, 0, 4, 8]"
proof -
  let ?R = "run never_solved 1000 300 6 (getResponsePromise 0 never_solved 1000 300)"
  have e: "promise ?R = Rejected ''Timeout''" "timers ?R = [Timer 7 1800 6 PollCallback]"
      "checks ?R = [0, 300, 600, 900, 1200, 1500]"
    by code_simp+
  have z: "settled_at (run never_solved 10 0 9 (getResponsePromise 0 never_solved 10 0)) = Some 10"
      "checks (run never_solved 10 0 9 (getResponsePromise 0 never_solved 10 0))
         = [0, 0, 0, 0, 0, 0, 0, 4, 8]"
    by code_simp+
  note th = one_timer_cleared_and_settled_in_time [of never_solved 1000 300 0]
  from th have a: "timeout_timers_created ?R \<le> 1" by blast
  from th have c: "\<exists>n t. t \<le> 1000 + 300
         \<and> (\<forall>m\<ge>n. promise (run never_solved 1000 300 m (getResponsePromise 0 never_solved 1000 300)) \<noteq> Pending
                \<and> settled_at (run never_solved 1000 300 m (getResponsePromise 0 never_solved 1000 300)) = Some t)"
    by auto
  from a e z c show ?thesis by blast
qed

end
